theory Spec2Isabelle
  imports Main
begin

section \<open>JavaScript values used by the components\<close>

text \<open>
  Array indices and cursors are JavaScript numbers; the ones the components compute are
  integers (\<open>historyIndex\<close> starts at \<open>-1\<close>), so they are \<^typ>\<open>int\<close> here.
  \<open>xs[i]\<close> is \<open>undefined\<close> outside the array: \<open>js_nth\<close> returns \<open>None\<close> there.
\<close>

definition js_nth :: "'a list \<Rightarrow> int \<Rightarrow> 'a option" where
  "js_nth xs i = (if 0 \<le> i \<and> i < int (length xs) then Some (xs ! nat i) else None)"

text \<open>
  \<open>xs.slice(0, e)\<close>: a negative end counts from the end of the array (not below 0), any other
  end is cut at the length.
\<close>

definition js_slice0 :: "'a list \<Rightarrow> int \<Rightarrow> 'a list" where
  "js_slice0 xs e =
     (let n = int (length xs);
          k = (if e < 0 then max (n + e) 0 else min e n)
      in take (nat k) xs)"

text \<open>\<open>xs.findIndex(P)\<close>: the first index whose element satisfies \<open>P\<close>, or \<open>-1\<close>.\<close>

fun findIndex_from :: "('a \<Rightarrow> bool) \<Rightarrow> 'a list \<Rightarrow> int \<Rightarrow> int" where
  "findIndex_from P [] i = - 1"
| "findIndex_from P (x # xs) i = (if P x then i else findIndex_from P xs (i + 1))"

definition findIndex :: "('a \<Rightarrow> bool) \<Rightarrow> 'a list \<Rightarrow> int" where
  "findIndex P xs = findIndex_from P xs 0"

text \<open>
  \<open>xs.indexOf(x)\<close> on an array of strings, with strict equality. The needle is
  \<open>poseInstructions[i]\<close>, which is \<open>undefined\<close> (\<open>None\<close>) for an index out of range, and
  \<open>undefined\<close> is equal to no string.
\<close>

fun indexOf :: "string list \<Rightarrow> string option \<Rightarrow> int" where
  "indexOf xs None = - 1"
| "indexOf xs (Some x) = findIndex (\<lambda>y. y = x) xs"

text \<open>
  The remainder \<open>a % b\<close> has the sign of \<open>a\<close>, and is \<open>NaN\<close> when \<open>b\<close> is 0.
\<close>

datatype js_index = Idx int | NaN

definition js_rem :: "int \<Rightarrow> int \<Rightarrow> js_index" where
  "js_rem a b = (if b = 0 then NaN else Idx (sgn a * (\<bar>a\<bar> mod \<bar>b\<bar>)))"

text \<open>A string is truthy when it is not empty; \<open>null\<close> and \<open>undefined\<close> are falsy.\<close>

fun truthy :: "string option \<Rightarrow> bool" where
  "truthy None = False"
| "truthy (Some v) = (v \<noteq> [])"

section \<open>Data model (types.ts)\<close>

datatype GarmentCategory = shirt | outerwear | pants | shoes | hat

record WardrobeItem =
  id_w :: string
  name :: string
  url :: string
  category :: GarmentCategory

text \<open>
  \<open>poseImages\<close> is a JavaScript object used as a dictionary from pose instruction to image
  URL. \<open>Object.keys\<close> and \<open>Object.values\<close> enumerate it in insertion order (no pose
  instruction is an integer-like key), and the components depend on that order, so it is an
  association list with one entry per key, in insertion order.
\<close>

type_synonym pose_images = "(string \<times> string) list"

record OutfitLayer =
  garment :: "WardrobeItem option"
  poseImages :: pose_images

text \<open>
  A property key is a string; \<open>undefined\<close> used as a key is the string \<open>undefined\<close>.
\<close>

fun js_key :: "string option \<Rightarrow> string" where
  "js_key None = ''undefined''"
| "js_key (Some k) = k"

definition js_get :: "pose_images \<Rightarrow> string option \<Rightarrow> string option" where
  "js_get m k = map_of m (js_key k)"

text \<open>\<open>{...m, [k]: v}\<close>: an existing key keeps its place, a new one goes last.\<close>

fun js_set :: "pose_images \<Rightarrow> string \<Rightarrow> string \<Rightarrow> pose_images" where
  "js_set [] k v = [(k, v)]"
| "js_set ((k', v') # m) k v = (if k' = k then (k, v) # m else (k', v') # js_set m k v)"

definition object_keys :: "pose_images \<Rightarrow> string list" where
  "object_keys m = map fst m"

definition object_values :: "pose_images \<Rightarrow> string list" where
  "object_values m = map snd m"

section \<open>The application state (App.tsx)\<close>

definition POSE_INSTRUCTIONS :: "string list" where
  "POSE_INSTRUCTIONS =
    [''Full frontal view, hands on hips'',
     ''Slightly turned, 3/4 view'',
     ''Side profile view'',
     ''Back view, looking over shoulder'',
     ''Leaning against a neutral wall'',
     ''Walking towards camera, in mid-stride'',
     ''Jumping in the air, joyful expression'',
     ''Twirling, capturing fabric motion'',
     ''Striding confidently, runway walk'',
     ''A dynamic action pose, mid-movement'',
     ''Sitting casually on a modern stool'',
     ''Lounging gracefully on a chaise lounge'',
     ''Sitting on the floor, cross-legged'',
     ''Leaning forward, hands on knees'',
     ''Crouching, athletic stance'',
     ''Confident power pose, one hand in pocket'',
     ''Playful pose, hands in hair'',
     ''Hands framing face, high-fashion look'',
     ''Looking up, hopeful expression'',
     ''Arms crossed, serious and direct look'']"

record HistoryState =
  outfitHistory :: "OutfitLayer list"
  currentOutfitIndex :: int
  currentPoseIndex :: int

text \<open>
  A call to the image service (services/geminiService): the base image and what is asked for.
\<close>

datatype synth_call =
    VirtualTryOn string GarmentCategory
  | PoseVariation string string

text \<open>
  The \<open>useState\<close> cells of the \<open>App\<close> component. \<open>synthCalls\<close> is not one of them: it is
  the trace of the calls the handlers have made to the image service, kept so that "this
  operation invokes synthesis" can be stated.
\<close>

record app =
  originalUserImageUrl :: "string option"
  generatedModelUrl :: "string option"
  history :: "HistoryState list"
  historyIndex :: int
  isLoading :: bool
  loadingMessage :: string
  error :: "string option"
  isSheetCollapsed :: bool
  wardrobe :: "WardrobeItem list"
  isShareModalOpen :: bool
  synthCalls :: "synth_call list"

text \<open>What a \<open>throw\<close> or a rejected promise carries: an \<open>Error\<close> with its message.\<close>

datatype thrown = Error string

subsection \<open>Derived values\<close>

definition currentState :: "app \<Rightarrow> HistoryState option" where
  "currentState s = js_nth (history s) (historyIndex s)"

definition outfitHistory_cur :: "app \<Rightarrow> OutfitLayer list" where
  "outfitHistory_cur s = (case currentState s of None \<Rightarrow> [] | Some cs \<Rightarrow> outfitHistory cs)"

definition currentOutfitIndex_cur :: "app \<Rightarrow> int" where
  "currentOutfitIndex_cur s = (case currentState s of None \<Rightarrow> 0 | Some cs \<Rightarrow> currentOutfitIndex cs)"

definition currentPoseIndex_cur :: "app \<Rightarrow> int" where
  "currentPoseIndex_cur s = (case currentState s of None \<Rightarrow> 0 | Some cs \<Rightarrow> currentPoseIndex cs)"

definition canUndo :: "app \<Rightarrow> bool" where
  "canUndo s = (historyIndex s > 0)"

definition canRedo :: "app \<Rightarrow> bool" where
  "canRedo s = (historyIndex s < int (length (history s)) - 1)"

definition activeOutfitLayers :: "app \<Rightarrow> OutfitLayer list" where
  "activeOutfitLayers s = js_slice0 (outfitHistory_cur s) (currentOutfitIndex_cur s + 1)"

text \<open>
  \<open>activeOutfitLayers.map(layer => layer.garment?.id).filter(Boolean)\<close>: the ids of the
  garments of the active layers, without the falsy ones (no garment, empty id).
\<close>

definition activeGarmentIds :: "app \<Rightarrow> string list" where
  "activeGarmentIds s =
     concat (map (\<lambda>layer. case garment layer of
                             None \<Rightarrow> []
                           | Some g \<Rightarrow> if id_w g = [] then [] else [id_w g])
                 (activeOutfitLayers s))"

text \<open>
  \<open>layer.poseImages[k] ?? Object.values(layer.poseImages)[0]\<close>: the image stored for the
  instruction, or else the first stored image (\<open>??\<close> falls through on \<open>undefined\<close> only).
\<close>

definition imageOrFirst :: "OutfitLayer \<Rightarrow> string option \<Rightarrow> string option" where
  "imageOrFirst layer k =
     (case js_get (poseImages layer) k of
        Some v \<Rightarrow> Some v
      | None \<Rightarrow> js_nth (object_values (poseImages layer)) 0)"

definition displayImageUrl :: "app \<Rightarrow> string option" where
  "displayImageUrl s =
     (if outfitHistory_cur s = [] then generatedModelUrl s
      else case js_nth (outfitHistory_cur s) (currentOutfitIndex_cur s) of
             None \<Rightarrow> generatedModelUrl s
           | Some currentLayer \<Rightarrow>
               imageOrFirst currentLayer (js_nth POSE_INSTRUCTIONS (currentPoseIndex_cur s)))"

definition availablePoseKeys :: "app \<Rightarrow> string list" where
  "availablePoseKeys s =
     (if outfitHistory_cur s = [] then []
      else case js_nth (outfitHistory_cur s) (currentOutfitIndex_cur s) of
             None \<Rightarrow> []
           | Some currentLayer \<Rightarrow> object_keys (poseImages currentLayer))"

subsection \<open>History log\<close>

definition recordNewState :: "app \<Rightarrow> HistoryState \<Rightarrow> app" where
  "recordNewState s newState =
     (let newHistory = js_slice0 (history s) (historyIndex s + 1) @ [newState]
      in s\<lparr>history := newHistory, historyIndex := int (length newHistory) - 1\<rparr>)"

definition handleModelFinalized :: "app \<Rightarrow> string \<Rightarrow> string \<Rightarrow> app" where
  "handleModelFinalized s originalUrl generatedUrl =
     s\<lparr>originalUserImageUrl := Some originalUrl,
       generatedModelUrl := Some generatedUrl,
       history := [\<lparr>outfitHistory =
                       [\<lparr>garment = None,
                         poseImages = [(js_key (js_nth POSE_INSTRUCTIONS 0), generatedUrl)]\<rparr>],
                    currentOutfitIndex = 0,
                    currentPoseIndex = 0\<rparr>],
       historyIndex := 0\<rparr>"

definition handleUndo :: "app \<Rightarrow> app" where
  "handleUndo s = (if canUndo s then s\<lparr>historyIndex := historyIndex s - 1\<rparr> else s)"

definition handleRedo :: "app \<Rightarrow> app" where
  "handleRedo s = (if canRedo s then s\<lparr>historyIndex := historyIndex s + 1\<rparr> else s)"

subsection \<open>Wardrobe (wardrobe.ts) and reset\<close>

definition defaultWardrobe :: "WardrobeItem list" where
  "defaultWardrobe =
    [\<lparr>id_w = ''gemini-tee'', name = ''Tee'',
      url = ''https://i.imghippo.com/files/kgxo8893iM.webp'', category = shirt\<rparr>,
     \<lparr>id_w = ''gemini-sweat'', name = ''outerwear'',
      url = ''https://i.imghippo.com/files/EAdD7305YQ.webp'', category = outerwear\<rparr>,
     \<lparr>id_w = ''classic-jeans'', name = ''pants'',
      url = ''https://i.imghippo.com/files/IuBH8049xRk.webp'', category = pants\<rparr>,
     \<lparr>id_w = ''white-sneakers'', name = ''shoes'',
      url = ''https://i.imghippo.com/files/WxdW1574eZg.webp'', category = shoes\<rparr>,
     \<lparr>id_w = ''black-cap'', name = ''hat'',
      url = ''https://i.imghippo.com/files/ZWYH3713Jcw.webp'', category = hat\<rparr>]"

text \<open>The initial values of the \<open>useState\<close> cells, with an empty trace.\<close>

definition initialApp :: app where
  "initialApp =
     \<lparr>originalUserImageUrl = None, generatedModelUrl = None, history = [], historyIndex = - 1,
      isLoading = False, loadingMessage = [], error = None, isSheetCollapsed = False,
      wardrobe = defaultWardrobe, isShareModalOpen = False, synthCalls = []\<rparr>"

definition handleStartOver :: "app \<Rightarrow> app" where
  "handleStartOver s =
     s\<lparr>originalUserImageUrl := None,
       generatedModelUrl := None,
       history := [],
       historyIndex := - 1,
       isLoading := False,
       loadingMessage := [],
       error := None,
       isSheetCollapsed := False,
       wardrobe := defaultWardrobe\<rparr>"

subsection \<open>The busy flag\<close>

text \<open>
  Both asynchronous handlers run \<open>setError(null); setIsLoading(true); setLoadingMessage(msg)\<close>
  before the \<open>try\<close> block, and \<open>setIsLoading(false); setLoadingMessage('')\<close> in the
  \<open>finally\<close> block. \<open>setLoading s msg\<close> is the state in which the component is rendered
  while the service call is outstanding.
\<close>

definition setLoading :: "app \<Rightarrow> string \<Rightarrow> app" where
  "setLoading s msg = s\<lparr>error := None, isLoading := True, loadingMessage := msg\<rparr>"

definition finallyBlock :: "app \<Rightarrow> app" where
  "finallyBlock s = s\<lparr>isLoading := False, loadingMessage := []\<rparr>"

subsection \<open>Applying a garment\<close>

text \<open>
  \<open>handleGarmentSelect\<close> is asynchronous: it awaits \<open>generateVirtualTryOnImage\<close> once. The
  model runs the handler from the call to its completion on the state it was called in; the
  service is the parameter \<open>generateVirtualTryOnImage\<close>, which returns the new image or what
  the rejected promise carries. \<open>getFriendlyErrorMessage\<close> (lib/utils) is a parameter too.
  Every \<open>throw\<close> inside the \<open>try\<close> block goes to \<open>garmentCatch\<close>, and the \<open>finally\<close> block
  runs on each of these paths.
\<close>

text \<open>\<open>nextLayer && nextLayer.garment?.id === garmentInfo.id\<close>\<close>

definition redoMatches :: "OutfitLayer option \<Rightarrow> WardrobeItem \<Rightarrow> bool" where
  "redoMatches nextLayer garmentInfo =
     (case nextLayer of
        None \<Rightarrow> False
      | Some l \<Rightarrow> (case garment l of None \<Rightarrow> False | Some g \<Rightarrow> id_w g = id_w garmentInfo))"

text \<open>\<open>layer.garment?.category === garmentInfo.category\<close>\<close>

definition sameCategory :: "WardrobeItem \<Rightarrow> OutfitLayer \<Rightarrow> bool" where
  "sameCategory garmentInfo layer =
     (case garment layer of None \<Rightarrow> False | Some g \<Rightarrow> category g = category garmentInfo)"

definition baseHistorySlice :: "app \<Rightarrow> WardrobeItem \<Rightarrow> OutfitLayer list" where
  "baseHistorySlice s garmentInfo =
     (let activeLayers = js_slice0 (outfitHistory_cur s) (currentOutfitIndex_cur s + 1);
          existingLayerIndex = findIndex (sameCategory garmentInfo) activeLayers
      in if existingLayerIndex \<noteq> - 1 \<and> existingLayerIndex > 0
         then js_slice0 (outfitHistory_cur s) existingLayerIndex
         else activeLayers)"

definition garmentCatch :: "(thrown \<Rightarrow> string \<Rightarrow> string) \<Rightarrow> app \<Rightarrow> thrown \<Rightarrow> app" where
  "garmentCatch getFriendlyErrorMessage s err =
     s\<lparr>error := Some (getFriendlyErrorMessage err ''Failed to apply garment'')\<rparr>"

definition addToWardrobe :: "WardrobeItem list \<Rightarrow> WardrobeItem \<Rightarrow> WardrobeItem list" where
  "addToWardrobe prev garmentInfo =
     (case find (\<lambda>item. id_w item = id_w garmentInfo) prev of
        Some item \<Rightarrow> prev
      | None \<Rightarrow> prev @ [garmentInfo])"

definition handleGarmentSelect ::
  "(string \<Rightarrow> 'f \<Rightarrow> GarmentCategory \<Rightarrow> thrown + string) \<Rightarrow> (thrown \<Rightarrow> string \<Rightarrow> string) \<Rightarrow>
   app \<Rightarrow> 'f \<Rightarrow> WardrobeItem \<Rightarrow> app" where
  "handleGarmentSelect generateVirtualTryOnImage getFriendlyErrorMessage s garmentFile garmentInfo =
     (case currentState s of
        None \<Rightarrow> s
      | Some cs \<Rightarrow>
        if \<not> truthy (generatedModelUrl s) \<or> isLoading s then s
        else if redoMatches (js_nth (outfitHistory_cur s) (currentOutfitIndex_cur s + 1)) garmentInfo
        then recordNewState s
               (cs\<lparr>currentOutfitIndex := currentOutfitIndex_cur s + 1, currentPoseIndex := 0\<rparr>)
        else
          let s1 = setLoading s (''Adding '' @ name garmentInfo @ ''...'');
              base = baseHistorySlice s garmentInfo;
              currentPoseInstruction = js_nth POSE_INSTRUCTIONS (currentPoseIndex_cur s);
              s2 =
                (case js_nth base (int (length base) - 1) of
                   None \<Rightarrow>
                     garmentCatch getFriendlyErrorMessage s1
                       (Error ''Could not find a base layer for generation.'')
                 | Some baseLayer \<Rightarrow>
                    (case imageOrFirst baseLayer currentPoseInstruction of
                       None \<Rightarrow>
                         garmentCatch getFriendlyErrorMessage s1
                           (Error ''Could not find a base image for generation.'')
                     | Some baseImageForGeneration \<Rightarrow>
                        if baseImageForGeneration = []
                        then garmentCatch getFriendlyErrorMessage s1
                               (Error ''Could not find a base image for generation.'')
                        else
                          let s1' = s1\<lparr>synthCalls := synthCalls s1 @
                                        [VirtualTryOn baseImageForGeneration (category garmentInfo)]\<rparr>
                          in (case generateVirtualTryOnImage baseImageForGeneration garmentFile
                                     (category garmentInfo) of
                                Inl err \<Rightarrow> garmentCatch getFriendlyErrorMessage s1' err
                              | Inr newImageUrl \<Rightarrow>
                                  let newLayer = \<lparr>garment = Some garmentInfo,
                                         poseImages = [(js_key currentPoseInstruction, newImageUrl)]\<rparr>;
                                      updatedOutfitHistory = base @ [newLayer];
                                      s3 = recordNewState s1'
                                             \<lparr>outfitHistory = updatedOutfitHistory,
                                              currentOutfitIndex = int (length updatedOutfitHistory) - 1,
                                              currentPoseIndex = currentPoseIndex_cur s\<rparr>
                                  in s3\<lparr>wardrobe := addToWardrobe (wardrobe s3) garmentInfo\<rparr>)))
          in finallyBlock s2)"

text \<open>
  The two halves of \<open>handleGarmentSelect\<close> around its \<open>await\<close>, for the case that other
  handlers run in between. \<open>garmentPending\<close> is the state rendered while the call with base
  image \<open>b\<close> is outstanding. \<open>garmentResume\<close> is the rest of the handler, run on the state
  \<open>now\<close> of that later moment with the service's answer: \<open>baseHistorySlice\<close>,
  \<open>currentPoseIndex\<close> and the \<open>recordNewState\<close> callback are those of the render in which
  the handler was called (state \<open>s0\<close>), so \<open>setHistory\<close> and \<open>setHistoryIndex\<close> write the
  log of \<open>s0\<close> cut at the cursor of \<open>s0\<close> plus the new snapshot, while \<open>setWardrobe\<close>,
  \<open>setError\<close>, \<open>setIsLoading\<close> and \<open>setLoadingMessage\<close> update \<open>now\<close>.
\<close>

definition garmentPending :: "app \<Rightarrow> WardrobeItem \<Rightarrow> string \<Rightarrow> app" where
  "garmentPending s0 garmentInfo b =
     (let s1 = setLoading s0 (''Adding '' @ name garmentInfo @ ''...'')
      in s1\<lparr>synthCalls := synthCalls s1 @ [VirtualTryOn b (category garmentInfo)]\<rparr>)"

definition garmentResume ::
  "(thrown \<Rightarrow> string \<Rightarrow> string) \<Rightarrow> app \<Rightarrow> WardrobeItem \<Rightarrow> thrown + string \<Rightarrow> app \<Rightarrow> app" where
  "garmentResume getFriendlyErrorMessage s0 garmentInfo answer now =
     finallyBlock
       (case answer of
          Inl err \<Rightarrow> garmentCatch getFriendlyErrorMessage now err
        | Inr newImageUrl \<Rightarrow>
            let base = baseHistorySlice s0 garmentInfo;
                currentPoseInstruction = js_nth POSE_INSTRUCTIONS (currentPoseIndex_cur s0);
                newLayer = \<lparr>garment = Some garmentInfo,
                             poseImages = [(js_key currentPoseInstruction, newImageUrl)]\<rparr>;
                updatedOutfitHistory = base @ [newLayer];
                newHistory = js_slice0 (history s0) (historyIndex s0 + 1) @
                               [\<lparr>outfitHistory = updatedOutfitHistory,
                                 currentOutfitIndex = int (length updatedOutfitHistory) - 1,
                                 currentPoseIndex = currentPoseIndex_cur s0\<rparr>]
            in now\<lparr>history := newHistory, historyIndex := int (length newHistory) - 1,
                   wardrobe := addToWardrobe (wardrobe now) garmentInfo\<rparr>)"

subsection \<open>Removing the last garment\<close>

definition handleRemoveLastGarment :: "app \<Rightarrow> app" where
  "handleRemoveLastGarment s =
     (case currentState s of
        None \<Rightarrow> s
      | Some cs \<Rightarrow>
        if currentOutfitIndex_cur s > 0
        then recordNewState s
               (cs\<lparr>currentOutfitIndex := currentOutfitIndex_cur s - 1, currentPoseIndex := 0\<rparr>)
        else s)"

subsection \<open>Selecting a pose\<close>

definition poseCatch :: "(thrown \<Rightarrow> string \<Rightarrow> string) \<Rightarrow> app \<Rightarrow> thrown \<Rightarrow> app" where
  "poseCatch getFriendlyErrorMessage s err =
     s\<lparr>error := Some (getFriendlyErrorMessage err ''Failed to change pose'')\<rparr>"

text \<open>
  \<open>outfitHistory.map((layer, index) => index === currentOutfitIndex ? {...} : layer)\<close>:
  a new array, in which the layer at the current index is a new object with one more pose.
\<close>

fun mapLayer :: "OutfitLayer list \<Rightarrow> int \<Rightarrow> int \<Rightarrow> string \<Rightarrow> string \<Rightarrow> OutfitLayer list" where
  "mapLayer [] index cur k v = []"
| "mapLayer (layer # ls) index cur k v =
     (if index = cur then layer\<lparr>poseImages := js_set (poseImages layer) k v\<rparr> else layer)
     # mapLayer ls (index + 1) cur k v"

text \<open>
  \<open>currentLayer.poseImages\<close> where \<open>currentLayer\<close> is \<open>undefined\<close> raises a TypeError outside
  any \<open>try\<close> block: the handler stops there with no state update (\<open>None \<Rightarrow> s\<close> below).
\<close>

definition handlePoseSelect ::
  "(string \<Rightarrow> string \<Rightarrow> thrown + string) \<Rightarrow> (thrown \<Rightarrow> string \<Rightarrow> string) \<Rightarrow> app \<Rightarrow> int \<Rightarrow> app" where
  "handlePoseSelect generatePoseVariation getFriendlyErrorMessage s newIndex =
     (case currentState s of
        None \<Rightarrow> s
      | Some cs \<Rightarrow>
        if isLoading s \<or> outfitHistory_cur s = [] \<or> newIndex = currentPoseIndex_cur s then s
        else
          let poseInstruction = js_nth POSE_INSTRUCTIONS newIndex in
          (case js_nth (outfitHistory_cur s) (currentOutfitIndex_cur s) of
             None \<Rightarrow> s
           | Some currentLayer \<Rightarrow>
             if truthy (js_get (poseImages currentLayer) poseInstruction)
             then recordNewState s (cs\<lparr>currentPoseIndex := newIndex\<rparr>)
             else
               (case js_nth (object_values (poseImages currentLayer)) 0 of
                  None \<Rightarrow> s
                | Some baseImageForPoseChange \<Rightarrow>
                  if baseImageForPoseChange = [] then s
                  else
                    let s0 = setLoading s ''Changing pose...'';
                        s1 = s0\<lparr>synthCalls := synthCalls s0 @
                                 [PoseVariation baseImageForPoseChange (js_key poseInstruction)]\<rparr>;
                        s2 =
                          (case generatePoseVariation baseImageForPoseChange (js_key poseInstruction) of
                             Inl err \<Rightarrow> poseCatch getFriendlyErrorMessage s1 err
                           | Inr newImageUrl \<Rightarrow>
                               recordNewState s1
                                 (cs\<lparr>outfitHistory :=
                                        mapLayer (outfitHistory_cur s) 0 (currentOutfitIndex_cur s)
                                          (js_key poseInstruction) newImageUrl,
                                      currentPoseIndex := newIndex\<rparr>))
                    in finallyBlock s2)))"

text \<open>
  \<open>handlePoseSelect\<close> with the master pose list as a parameter in place of the module
  constant \<open>POSE_INSTRUCTIONS\<close>, and nothing else changed: it is \<open>handlePoseSelect\<close> at
  \<open>POSE_INSTRUCTIONS\<close> (lemma \<open>handlePoseSelect_With\<close>), and says what the handler does
  in an \<open>App\<close> whose master list is another one.
\<close>

definition handlePoseSelectWith ::
  "string list \<Rightarrow> (string \<Rightarrow> string \<Rightarrow> thrown + string) \<Rightarrow> (thrown \<Rightarrow> string \<Rightarrow> string) \<Rightarrow>
   app \<Rightarrow> int \<Rightarrow> app" where
  "handlePoseSelectWith poseInstructions generatePoseVariation getFriendlyErrorMessage s newIndex =
     (case currentState s of
        None \<Rightarrow> s
      | Some cs \<Rightarrow>
        if isLoading s \<or> outfitHistory_cur s = [] \<or> newIndex = currentPoseIndex_cur s then s
        else
          let poseInstruction = js_nth poseInstructions newIndex in
          (case js_nth (outfitHistory_cur s) (currentOutfitIndex_cur s) of
             None \<Rightarrow> s
           | Some currentLayer \<Rightarrow>
             if truthy (js_get (poseImages currentLayer) poseInstruction)
             then recordNewState s (cs\<lparr>currentPoseIndex := newIndex\<rparr>)
             else
               (case js_nth (object_values (poseImages currentLayer)) 0 of
                  None \<Rightarrow> s
                | Some baseImageForPoseChange \<Rightarrow>
                  if baseImageForPoseChange = [] then s
                  else
                    let s0 = setLoading s ''Changing pose...'';
                        s1 = s0\<lparr>synthCalls := synthCalls s0 @
                                 [PoseVariation baseImageForPoseChange (js_key poseInstruction)]\<rparr>;
                        s2 =
                          (case generatePoseVariation baseImageForPoseChange (js_key poseInstruction) of
                             Inl err \<Rightarrow> poseCatch getFriendlyErrorMessage s1 err
                           | Inr newImageUrl \<Rightarrow>
                               recordNewState s1
                                 (cs\<lparr>outfitHistory :=
                                        mapLayer (outfitHistory_cur s) 0 (currentOutfitIndex_cur s)
                                          (js_key poseInstruction) newImageUrl,
                                      currentPoseIndex := newIndex\<rparr>))
                    in finallyBlock s2)))"

section \<open>Pose navigation (components/Canvas.tsx)\<close>

text \<open>
  The two handlers read the props \<open>isLoading\<close>, \<open>poseInstructions\<close>, \<open>currentPoseIndex\<close> and
  \<open>availablePoseKeys\<close>, and call \<open>onSelectPose\<close> at most once: the result is the argument
  of that call, or \<open>None\<close> when it is not called.
\<close>

definition handlePreviousPose :: "bool \<Rightarrow> string list \<Rightarrow> int \<Rightarrow> string list \<Rightarrow> js_index option" where
  "handlePreviousPose isLoading_p poseInstructions currentPoseIndex_p availablePoseKeys_p =
     (if isLoading_p \<or> length availablePoseKeys_p \<le> 1 then None
      else
        let currentPoseInstruction = js_nth poseInstructions currentPoseIndex_p;
            currentIndexInAvailable = indexOf availablePoseKeys_p currentPoseInstruction
        in if currentIndexInAvailable = - 1
           then Some (js_rem (currentPoseIndex_p - 1 + int (length poseInstructions))
                             (int (length poseInstructions)))
           else
             (case js_rem (currentIndexInAvailable - 1 + int (length availablePoseKeys_p))
                          (int (length availablePoseKeys_p)) of
                NaN \<Rightarrow> None
              | Idx prevIndexInAvailable \<Rightarrow>
                  let prevPoseInstruction = js_nth availablePoseKeys_p prevIndexInAvailable;
                      newGlobalPoseIndex = indexOf poseInstructions prevPoseInstruction
                  in if newGlobalPoseIndex \<noteq> - 1 then Some (Idx newGlobalPoseIndex) else None))"

definition handleNextPose :: "bool \<Rightarrow> string list \<Rightarrow> int \<Rightarrow> string list \<Rightarrow> js_index option" where
  "handleNextPose isLoading_p poseInstructions currentPoseIndex_p availablePoseKeys_p =
     (if isLoading_p then None
      else
        let currentPoseInstruction = js_nth poseInstructions currentPoseIndex_p;
            currentIndexInAvailable = indexOf availablePoseKeys_p currentPoseInstruction
        in if currentIndexInAvailable = - 1 \<or> length availablePoseKeys_p = 0
           then Some (js_rem (currentPoseIndex_p + 1) (int (length poseInstructions)))
           else
             let nextIndexInAvailable = currentIndexInAvailable + 1
             in if nextIndexInAvailable < int (length availablePoseKeys_p)
                then
                  let nextPoseInstruction = js_nth availablePoseKeys_p nextIndexInAvailable;
                      newGlobalPoseIndex = indexOf poseInstructions nextPoseInstruction
                  in if newGlobalPoseIndex \<noteq> - 1 then Some (Idx newGlobalPoseIndex) else None
                else Some (js_rem (currentPoseIndex_p + 1) (int (length poseInstructions))))"

text \<open>
  The wiring in \<open>App\<close>'s JSX: \<open>Canvas\<close> gets \<open>POSE_INSTRUCTIONS\<close> and the derived values of the
  current state, and \<open>onSelectPose\<close> is \<open>handlePoseSelect\<close>. The pose buttons are rendered only
  when \<open>displayImageUrl && !isLoading\<close>. \<open>POSE_INSTRUCTIONS\<close> is not empty, so the index is
  never \<open>NaN\<close> here (lemma \<open>js_rem_POSE\<close>).
\<close>

definition poseControlsShown :: "app \<Rightarrow> bool" where
  "poseControlsShown s = (truthy (displayImageUrl s) \<and> \<not> isLoading s)"

definition onSelectPose ::
  "(string \<Rightarrow> string \<Rightarrow> thrown + string) \<Rightarrow> (thrown \<Rightarrow> string \<Rightarrow> string) \<Rightarrow> app \<Rightarrow>
   js_index option \<Rightarrow> app" where
  "onSelectPose generatePoseVariation getFriendlyErrorMessage s call =
     (case call of
        Some (Idx i) \<Rightarrow> handlePoseSelect generatePoseVariation getFriendlyErrorMessage s i
      | _ \<Rightarrow> s)"

definition clickPreviousPose ::
  "(string \<Rightarrow> string \<Rightarrow> thrown + string) \<Rightarrow> (thrown \<Rightarrow> string \<Rightarrow> string) \<Rightarrow> app \<Rightarrow> app" where
  "clickPreviousPose generatePoseVariation getFriendlyErrorMessage s =
     (if poseControlsShown s
      then onSelectPose generatePoseVariation getFriendlyErrorMessage s
             (handlePreviousPose (isLoading s) POSE_INSTRUCTIONS (currentPoseIndex_cur s)
                (availablePoseKeys s))
      else s)"

definition clickNextPose ::
  "(string \<Rightarrow> string \<Rightarrow> thrown + string) \<Rightarrow> (thrown \<Rightarrow> string \<Rightarrow> string) \<Rightarrow> app \<Rightarrow> app" where
  "clickNextPose generatePoseVariation getFriendlyErrorMessage s =
     (if poseControlsShown s
      then onSelectPose generatePoseVariation getFriendlyErrorMessage s
             (handleNextPose (isLoading s) POSE_INSTRUCTIONS (currentPoseIndex_cur s)
                (availablePoseKeys s))
      else s)"

section \<open>Wardrobe panel (components/WardrobeModal.tsx)\<close>

text \<open>
  A click on a wardrobe item: nothing happens while busy or when the item's id is among
  the active garment ids; otherwise the item's image is loaded as a file (\<open>urlToFile\<close>, a
  parameter, which may fail) and passed with the item to \<open>onGarmentSelect\<close>, which is
  \<open>handleGarmentSelect\<close>. The panel's own error message is not part of the \<open>App\<close> state.
\<close>

definition handleGarmentClick ::
  "(string \<Rightarrow> string \<Rightarrow> thrown + 'f) \<Rightarrow>
   (string \<Rightarrow> 'f \<Rightarrow> GarmentCategory \<Rightarrow> thrown + string) \<Rightarrow> (thrown \<Rightarrow> string \<Rightarrow> string) \<Rightarrow>
   app \<Rightarrow> WardrobeItem \<Rightarrow> app" where
  "handleGarmentClick urlToFile generateVirtualTryOnImage getFriendlyErrorMessage s item =
     (if isLoading s \<or> id_w item \<in> set (activeGarmentIds s) then s
      else case urlToFile (url item) (name item) of
             Inl err \<Rightarrow> s
           | Inr file \<Rightarrow>
               handleGarmentSelect generateVirtualTryOnImage getFriendlyErrorMessage s file item)"

section \<open>Reachable states and their invariant\<close>

text \<open>
  The states the handlers can produce from the initial one, whatever the image service
  answers. The invariant: in every snapshot of the log the base layer holds no garment,
  every other layer holds one, no two of them of the same category, and
  \<open>currentOutfitIndex\<close> is an index of the layers; the cursor is \<open>-1\<close> on the empty log and
  an index of the log otherwise.
\<close>

definition garments_ok :: "WardrobeItem option list \<Rightarrow> bool" where
  "garments_ok gs =
     (case gs of
        [] \<Rightarrow> False
      | b # rest \<Rightarrow> b = None \<and> None \<notin> set rest \<and> distinct (map (map_option category) rest))"

definition snapshot_ok :: "HistoryState \<Rightarrow> bool" where
  "snapshot_ok h =
     (garments_ok (map garment (outfitHistory h))
      \<and> 0 \<le> currentOutfitIndex h \<and> currentOutfitIndex h < int (length (outfitHistory h)))"

definition state_ok :: "app \<Rightarrow> bool" where
  "state_ok s =
     (list_all snapshot_ok (history s)
      \<and> (if history s = [] then historyIndex s = - 1
         else 0 \<le> historyIndex s \<and> historyIndex s < int (length (history s))))"

inductive reachable :: "app \<Rightarrow> bool" where
  mount: "reachable initialApp"
| finalize: "reachable s \<Longrightarrow> reachable (handleModelFinalized s originalUrl generatedUrl)"
| startOver: "reachable s \<Longrightarrow> reachable (handleStartOver s)"
| undo: "reachable s \<Longrightarrow> reachable (handleUndo s)"
| redo: "reachable s \<Longrightarrow> reachable (handleRedo s)"
| garmentSelect: "reachable s \<Longrightarrow> reachable (handleGarmentSelect gen fr s (gf :: string) g)"
| removeLast: "reachable s \<Longrightarrow> reachable (handleRemoveLastGarment s)"
| poseSelect: "reachable s \<Longrightarrow> reachable (handlePoseSelect pv fr s i)"

section \<open>Example states\<close>

text \<open>
  Sample behaviours of the image service and of \<open>getFriendlyErrorMessage\<close>, and three
  garments: two items of the default wardrobe and one upload. The states below are reached
  from \<open>initialApp\<close> by the handlers.
\<close>

definition exampleTryOn :: "string \<Rightarrow> string \<Rightarrow> GarmentCategory \<Rightarrow> thrown + string" where
  "exampleTryOn baseImage garmentFile cat = Inr (baseImage @ ''+'' @ garmentFile)"

definition failingTryOn :: "string \<Rightarrow> string \<Rightarrow> GarmentCategory \<Rightarrow> thrown + string" where
  "failingTryOn baseImage garmentFile cat = Inl (Error ''service unavailable'')"

definition examplePose :: "string \<Rightarrow> string \<Rightarrow> thrown + string" where
  "examplePose baseImage poseInstruction = Inr (baseImage @ ''~'' @ take 4 poseInstruction)"

definition exampleFriendly :: "thrown \<Rightarrow> string \<Rightarrow> string" where
  "exampleFriendly err context = (case err of Error m \<Rightarrow> context @ '': '' @ m)"

definition exampleUrlToFile :: "string \<Rightarrow> string \<Rightarrow> thrown + string" where
  "exampleUrlToFile itemUrl filename = Inr filename"

definition shirtA :: WardrobeItem where
  "shirtA = \<lparr>id_w = ''gemini-tee'', name = ''Tee'',
             url = ''https://i.imghippo.com/files/kgxo8893iM.webp'', category = shirt\<rparr>"

definition pantsX :: WardrobeItem where
  "pantsX = \<lparr>id_w = ''classic-jeans'', name = ''pants'',
             url = ''https://i.imghippo.com/files/IuBH8049xRk.webp'', category = pants\<rparr>"

definition shirtB :: WardrobeItem where
  "shirtB = \<lparr>id_w = ''custom-1762160000000'', name = ''b.png'', url = ''blob:b'',
             category = shirt\<rparr>"

text \<open>Model finalized, then \<open>shirtA\<close> and \<open>pantsX\<close> applied: active layers base, A, X.\<close>

definition a1 :: app where
  "a1 = handleModelFinalized initialApp ''user.png'' ''model.png''"

definition a2 :: app where
  "a2 = handleGarmentSelect exampleTryOn exampleFriendly a1 ''A'' shirtA"

definition a3 :: app where
  "a3 = handleGarmentSelect exampleTryOn exampleFriendly a2 ''X'' pantsX"

text \<open>
  Model finalized, pose 1 selected, \<open>shirtA\<close> applied (in pose 1), pose 2 selected, the
  garment removed and then selected again.
\<close>

definition b2 :: app where
  "b2 = handlePoseSelect examplePose exampleFriendly a1 1"

definition b3 :: app where
  "b3 = handleGarmentSelect exampleTryOn exampleFriendly b2 ''A'' shirtA"

definition b4 :: app where
  "b4 = handlePoseSelect examplePose exampleFriendly b3 2"

definition b5 :: app where
  "b5 = handleRemoveLastGarment b4"

definition b6 :: app where
  "b6 = handleGarmentSelect exampleTryOn exampleFriendly b5 ''A'' shirtA"

text \<open>After \<open>b5\<close>: pose 1 selected (cached on the base layer), then undo.\<close>

definition c1 :: app where
  "c1 = handlePoseSelect examplePose exampleFriendly b5 1"

definition c2 :: app where
  "c2 = handleUndo c1"

text \<open>The state rendered while the service call of applying \<open>shirtB\<close> in \<open>a3\<close> is outstanding.\<close>

definition busy3 :: app where
  "busy3 = setLoading a3 (''Adding '' @ name shirtB @ ''...'')"

definition pending3 :: app where
  "pending3 = garmentPending a3 shirtB ''model.png''"

text \<open>A log of three snapshots \<open>snap 0\<close>, \<open>snap 1\<close>, \<open>snap 2\<close> with the cursor at 1.\<close>

definition snap :: "int \<Rightarrow> HistoryState" where
  "snap k = \<lparr>outfitHistory = [\<lparr>garment = None, poseImages = [(''Full frontal view, hands on hips'', ''model.png'')]\<rparr>],
             currentOutfitIndex = 0, currentPoseIndex = k\<rparr>"

definition logExample :: app where
  "logExample = initialApp\<lparr>generatedModelUrl := Some ''model.png'',
                            history := [snap 0, snap 1, snap 2], historyIndex := 1\<rparr>"

text \<open>
  A state whose current layer has images for the poses A and C, generated in that order,
  with the current pose index 0.
\<close>

definition generatedAC :: app where
  "generatedAC =
     initialApp\<lparr>originalUserImageUrl := Some ''user.png'',
                generatedModelUrl := Some ''model.png'',
                history := [\<lparr>outfitHistory =
                               [\<lparr>garment = None,
                                 poseImages = [(''A'', ''a.png''), (''C'', ''c.png'')]\<rparr>],
                             currentOutfitIndex = 0, currentPoseIndex = 0\<rparr>],
                historyIndex := 0\<rparr>"

section \<open>Basic facts\<close>

lemma js_slice0_take: "0 \<le> e \<Longrightarrow> js_slice0 xs e = take (nat e) xs"
  by (simp add: js_slice0_def Let_def min_def)

lemma js_rem_POSE: "js_rem a (int (length POSE_INSTRUCTIONS)) \<noteq> NaN"
  by (simp add: js_rem_def POSE_INSTRUCTIONS_def)

lemma js_slice0_prefix: "\<exists>k. js_slice0 xs e = take k xs"
  by (auto simp: js_slice0_def Let_def)

lemma js_nth_SomeD: "js_nth xs i = Some x \<Longrightarrow> 0 \<le> i \<and> i < int (length xs) \<and> xs ! nat i = x"
  by (simp add: js_nth_def split: if_splits)

lemma prefix_take_nth:
  assumes "ys = take k xs" "p < length ys"
  shows "take p ys = take p xs" "ys ! p = xs ! p" "p < length xs"
  using assms by (auto simp: min_def split: if_splits)

lemma history_recordNewState:
  "- 1 \<le> historyIndex s \<Longrightarrow>
   history (recordNewState s n) = take (nat (historyIndex s + 1)) (history s) @ [n]"
  by (simp add: recordNewState_def Let_def js_slice0_take)

lemma historyIndex_recordNewState:
  "historyIndex (recordNewState s n) = int (length (history (recordNewState s n))) - 1"
  by (simp add: recordNewState_def Let_def)

lemma currentState_recordNewState: "currentState (recordNewState s n) = Some n"
  by (simp add: currentState_def recordNewState_def Let_def js_nth_def)

lemma currentState_range:
  "currentState s = Some cs \<Longrightarrow> 0 \<le> historyIndex s \<and> historyIndex s < int (length (history s))"
  by (simp add: currentState_def js_nth_def split: if_splits)

lemma cur_simps:
  "currentState s = Some cs \<Longrightarrow> outfitHistory_cur s = outfitHistory cs"
  "currentState s = Some cs \<Longrightarrow> currentOutfitIndex_cur s = currentOutfitIndex cs"
  "currentState s = Some cs \<Longrightarrow> currentPoseIndex_cur s = currentPoseIndex cs"
  by (simp_all add: outfitHistory_cur_def currentOutfitIndex_cur_def currentPoseIndex_cur_def)

lemma currentState_frame [simp]:
  "currentState (finallyBlock s) = currentState s"
  "currentState (s\<lparr>wardrobe := w\<rparr>) = currentState s"
  "currentState (s\<lparr>synthCalls := c\<rparr>) = currentState s"
  "currentState (setLoading s m) = currentState s"
  by (simp_all add: currentState_def finallyBlock_def setLoading_def)

lemma synthCalls_frame [simp]:
  "synthCalls (finallyBlock s) = synthCalls s"
  "synthCalls (setLoading s m) = synthCalls s"
  "synthCalls (recordNewState s n) = synthCalls s"
  by (simp_all add: finallyBlock_def setLoading_def recordNewState_def Let_def)

lemma history_frame [simp]:
  "history (finallyBlock s) = history s"
  "history (setLoading s m) = history s"
  "historyIndex (finallyBlock s) = historyIndex s"
  "historyIndex (setLoading s m) = historyIndex s"
  "wardrobe (finallyBlock s) = wardrobe s"
  "wardrobe (setLoading s m) = wardrobe s"
  "wardrobe (recordNewState s n) = wardrobe s"
  "error (finallyBlock s) = error s"
  "isLoading (finallyBlock s) = False"
  by (simp_all add: finallyBlock_def setLoading_def recordNewState_def Let_def)

lemma activeOutfitLayers_eq:
  "currentState s = Some cs \<Longrightarrow>
   activeOutfitLayers s = js_slice0 (outfitHistory cs) (currentOutfitIndex cs + 1)"
  by (simp add: activeOutfitLayers_def cur_simps)

section \<open>The history log\<close>

text \<open>
  Claim C1. For every history log and cursor position (\<open>-1\<close> for the empty log, an index
  otherwise), \<open>recordNewState\<close> makes the log the prefix up to and including the cursor
  followed by the new snapshot, and sets the cursor to the new last index, so that the new
  snapshot is the current state.
\<close>

theorem recordNewState_truncates_and_appends:
  assumes "- 1 \<le> historyIndex s"
  shows "history (recordNewState s next) = take (nat (historyIndex s + 1)) (history s) @ [next]
       \<and> historyIndex (recordNewState s next) = int (length (history (recordNewState s next))) - 1
       \<and> currentState (recordNewState s next) = Some next"
  using assms
  by (simp add: history_recordNewState historyIndex_recordNewState currentState_recordNewState)

text \<open>The log \<open>[s0, s1, s2]\<close> at cursor 1: recording \<open>s3\<close> gives \<open>[s0, s1, s3]\<close> at cursor 2.\<close>

theorem recordNewState_example:
  "- 1 \<le> historyIndex logExample
   \<and> history logExample = [snap 0, snap 1, snap 2] \<and> historyIndex logExample = 1
   \<and> history (recordNewState logExample (snap 3)) = [snap 0, snap 1, snap 3]
   \<and> historyIndex (recordNewState logExample (snap 3)) = 2"
proof -
  have h: "- 1 \<le> historyIndex logExample"
    by (simp add: logExample_def)
  have e: "history logExample = [snap 0, snap 1, snap 2]" "historyIndex logExample = 1"
    by (simp_all add: logExample_def)
  show ?thesis
    using h e recordNewState_truncates_and_appends [OF h, of "snap 3"] by simp
qed

text \<open>
  Claim C9. Undo and redo leave the log itself untouched; with the cursor at an index
  greater than 0 of the log, undo followed by redo gives back the very same state, and so
  the same current snapshot.
\<close>

theorem undo_redo_roundtrip:
  "history (handleUndo s) = history s \<and> history (handleRedo s) = history s
   \<and> (0 < historyIndex s \<and> historyIndex s < int (length (history s)) \<longrightarrow>
        historyIndex (handleUndo s) = historyIndex s - 1
      \<and> handleRedo (handleUndo s) = s
      \<and> currentState (handleRedo (handleUndo s)) = currentState s)"
  by (simp add: handleUndo_def handleRedo_def canUndo_def canRedo_def)

theorem undo_redo_roundtrip_example:
  "0 < historyIndex a3 \<and> historyIndex a3 < int (length (history a3))
   \<and> historyIndex (handleUndo a3) = 1
   \<and> handleRedo (handleUndo a3) = a3"
proof -
  have h: "historyIndex a3 = 2" "length (history a3) = 3"
    by code_simp+
  show ?thesis
    using h undo_redo_roundtrip [of a3] by simp
qed

section \<open>Facts about the handlers\<close>

subsection \<open>The category scan\<close>

lemma findIndex_from_found:
  "findIndex_from P xs i = p \<Longrightarrow> p \<noteq> - 1 \<Longrightarrow> 0 \<le> i \<Longrightarrow>
   i \<le> p \<and> p < i + int (length xs) \<and> P (xs ! nat (p - i))"
proof (induction xs arbitrary: i)
  case Nil
  then show ?case by simp
next
  case (Cons x xs)
  show ?case
  proof (cases "P x")
    case True
    with Cons.prems show ?thesis by simp
  next
    case False
    with Cons.prems have rec: "findIndex_from P xs (i + 1) = p" by simp
    from Cons.IH [OF rec] Cons.prems
    have ih: "i + 1 \<le> p" "p < i + 1 + int (length xs)" "P (xs ! nat (p - (i + 1)))"
      by auto
    have n: "nat (p - i) = Suc (nat (p - (i + 1)))" using ih(1) by simp
    show ?thesis
      using ih unfolding n by simp
  qed
qed

lemma findIndex_found:
  assumes "findIndex P xs = p" "0 < p"
  shows "p < int (length xs)" "P (xs ! nat p)"
  using findIndex_from_found [of P xs 0 p] assms by (auto simp: findIndex_def)

lemma findIndex_from_first:
  "j < length xs \<Longrightarrow> P (xs ! j) \<Longrightarrow> 0 \<le> i \<Longrightarrow>
   i \<le> findIndex_from P xs i \<and> findIndex_from P xs i \<le> i + int j"
proof (induction xs arbitrary: i j)
  case Nil
  then show ?case by simp
next
  case (Cons x xs)
  show ?case
  proof (cases "P x")
    case True
    then show ?thesis by simp
  next
    case False
    with Cons.prems obtain j' where j': "j = Suc j'" by (cases j) auto
    with Cons.prems have "j' < length xs" "P (xs ! j')" by auto
    then have "i + 1 \<le> findIndex_from P xs (i + 1) \<and> findIndex_from P xs (i + 1) \<le> i + 1 + int j'"
      using Cons.IH [where j = j' and i = "i + 1"] Cons.prems by simp
    with False j' show ?thesis by simp
  qed
qed

lemma findIndex_first:
  assumes "j < length xs" "P (xs ! j)"
  shows "0 \<le> findIndex P xs" "findIndex P xs \<le> int j"
  using findIndex_from_first [where P = P and xs = xs and j = j and i = 0] assms
  by (simp_all add: findIndex_def)

lemma baseHistorySlice_replace:
  assumes cs: "currentState s = Some cs"
    and found: "findIndex (sameCategory g) (activeOutfitLayers s) = p" and pos: "0 < p"
  shows "baseHistorySlice s g = take (nat p) (outfitHistory cs)"
    and "nat p < length (outfitHistory cs)"
    and "p < int (length (activeOutfitLayers s))"
    and "take (nat p) (activeOutfitLayers s) = take (nat p) (outfitHistory cs)"
    and "sameCategory g (activeOutfitLayers s ! nat p)"
    and "js_nth (baseHistorySlice s g) (int (length (baseHistorySlice s g)) - 1) =
           Some (outfitHistory cs ! nat (p - 1))"
proof -
  let ?oh = "outfitHistory cs"
  let ?act = "activeOutfitLayers s"
  have act: "?act = js_slice0 ?oh (currentOutfitIndex cs + 1)"
    by (rule activeOutfitLayers_eq [OF cs])
  obtain k where k: "?act = take k ?oh" using act js_slice0_prefix [of ?oh] by metis
  show p_lt: "p < int (length ?act)" and "sameCategory g (?act ! nat p)"
    using findIndex_found [OF found pos] by auto
  have np: "nat p < length ?act" using p_lt pos by simp
  show tk: "take (nat p) ?act = take (nat p) ?oh" and p_oh: "nat p < length ?oh"
    using prefix_take_nth [OF k np] by auto
  show base: "baseHistorySlice s g = take (nat p) ?oh"
    using found pos cs act
    by (simp add: baseHistorySlice_def Let_def cur_simps activeOutfitLayers_def js_slice0_take)
  have len: "int (length (take (nat p) ?oh)) - 1 = p - 1" using p_oh pos by simp
  show "js_nth (baseHistorySlice s g) (int (length (baseHistorySlice s g)) - 1) = Some (?oh ! nat (p - 1))"
    unfolding base len using p_oh pos by (simp add: js_nth_def)
qed

subsection \<open>The two outcomes of the service call in \<open>handleGarmentSelect\<close>\<close>

lemma garment_await_success:
  assumes cs: "currentState s = Some cs"
    and bl: "js_nth (baseHistorySlice s g) (int (length (baseHistorySlice s g)) - 1) = Some baseLayer"
    and im: "imageOrFirst baseLayer (js_nth POSE_INSTRUCTIONS (currentPoseIndex cs)) = Some b" "b \<noteq> []"
    and go: "truthy (generatedModelUrl s)" "\<not> isLoading s"
      "\<not> redoMatches (js_nth (outfitHistory cs) (currentOutfitIndex cs + 1)) g"
    and ok: "gen b gf (category g) = Inr newImageUrl"
  shows "currentState (handleGarmentSelect gen fr s gf g) =
           Some \<lparr>outfitHistory = baseHistorySlice s g @
                    [\<lparr>garment = Some g,
                      poseImages = [(js_key (js_nth POSE_INSTRUCTIONS (currentPoseIndex cs)), newImageUrl)]\<rparr>],
                 currentOutfitIndex = int (length (baseHistorySlice s g)),
                 currentPoseIndex = currentPoseIndex cs\<rparr>"
    and "synthCalls (handleGarmentSelect gen fr s gf g) = synthCalls s @ [VirtualTryOn b (category g)]"
  using assms
  by (simp_all add: handleGarmentSelect_def cur_simps Let_def currentState_recordNewState)

lemma garment_await_failure:
  assumes cs: "currentState s = Some cs"
    and bl: "js_nth (baseHistorySlice s g) (int (length (baseHistorySlice s g)) - 1) = Some baseLayer"
    and im: "imageOrFirst baseLayer (js_nth POSE_INSTRUCTIONS (currentPoseIndex_cur s)) = Some b" "b \<noteq> []"
    and go: "truthy (generatedModelUrl s)" "\<not> isLoading s"
      "\<not> redoMatches (js_nth (outfitHistory_cur s) (currentOutfitIndex_cur s + 1)) g"
    and fail: "gen b gf (category g) = Inl err"
  shows "handleGarmentSelect gen fr s gf g =
           s\<lparr>error := Some (fr err ''Failed to apply garment''), isLoading := False,
             loadingMessage := [],
             synthCalls := synthCalls s @ [VirtualTryOn b (category g)]\<rparr>"
  using assms
  by (simp add: handleGarmentSelect_def Let_def garmentCatch_def setLoading_def finallyBlock_def)

lemma garment_calls_cases:
  "synthCalls (handleGarmentSelect gen fr s gf g) = synthCalls s \<or>
   (\<exists>cs baseLayer b.
      currentState s = Some cs \<and>
      js_nth (baseHistorySlice s g) (int (length (baseHistorySlice s g)) - 1) = Some baseLayer \<and>
      imageOrFirst baseLayer (js_nth POSE_INSTRUCTIONS (currentPoseIndex_cur s)) = Some b \<and> b \<noteq> [] \<and>
      truthy (generatedModelUrl s) \<and> \<not> isLoading s \<and>
      \<not> redoMatches (js_nth (outfitHistory_cur s) (currentOutfitIndex_cur s + 1)) g \<and>
      synthCalls (handleGarmentSelect gen fr s gf g) = synthCalls s @ [VirtualTryOn b (category g)])"
proof (cases "currentState s")
  case None
  then show ?thesis by (simp add: handleGarmentSelect_def)
next
  case (Some cs)
  show ?thesis
  proof (cases "\<not> truthy (generatedModelUrl s) \<or> isLoading s")
    case True
    then show ?thesis using Some by (auto simp add: handleGarmentSelect_def)
  next
    case go: False
    show ?thesis
    proof (cases "redoMatches (js_nth (outfitHistory_cur s) (currentOutfitIndex_cur s + 1)) g")
      case True
      then show ?thesis using Some go by (simp add: handleGarmentSelect_def)
    next
      case noredo: False
      show ?thesis
      proof (cases "js_nth (baseHistorySlice s g) (int (length (baseHistorySlice s g)) - 1)")
        case None
        then show ?thesis using Some go noredo
          by (simp add: handleGarmentSelect_def Let_def garmentCatch_def)
      next
        case bl: (Some baseLayer)
        show ?thesis
        proof (cases "imageOrFirst baseLayer (js_nth POSE_INSTRUCTIONS (currentPoseIndex_cur s))")
          case None
          then show ?thesis using Some go noredo bl
            by (simp add: handleGarmentSelect_def Let_def garmentCatch_def)
        next
          case im: (Some b)
          show ?thesis
          proof (cases "b = []")
            case True
            then show ?thesis using Some go noredo bl im
              by (simp add: handleGarmentSelect_def Let_def garmentCatch_def)
          next
            case False
            have "synthCalls (handleGarmentSelect gen fr s gf g) =
                    synthCalls s @ [VirtualTryOn b (category g)]"
              using Some go noredo bl im False
              by (cases "gen b gf (category g)")
                 (simp_all add: handleGarmentSelect_def Let_def garmentCatch_def)
            then show ?thesis using Some go noredo bl im False by blast
          qed
        qed
      qed
    qed
  qed
qed


text \<open>
  The handler run at once is its second half run on the pending state of the first.
\<close>

lemma garment_two_phase:
  assumes cs: "currentState s = Some cs"
    and bl: "js_nth (baseHistorySlice s g) (int (length (baseHistorySlice s g)) - 1) = Some baseLayer"
    and im: "imageOrFirst baseLayer (js_nth POSE_INSTRUCTIONS (currentPoseIndex_cur s)) = Some b" "b \<noteq> []"
    and go: "truthy (generatedModelUrl s)" "\<not> isLoading s"
      "\<not> redoMatches (js_nth (outfitHistory_cur s) (currentOutfitIndex_cur s + 1)) g"
  shows "handleGarmentSelect gen fr s gf g =
           garmentResume fr s g (gen b gf (category g)) (garmentPending s g b)"
  using assms
  by (cases "gen b gf (category g)")
     (simp_all add: handleGarmentSelect_def garmentResume_def garmentPending_def Let_def
        garmentCatch_def setLoading_def finallyBlock_def recordNewState_def)

subsection \<open>Pose images\<close>

lemma map_of_js_set: "map_of (js_set m k v) k = Some v"
  by (induction m k v rule: js_set.induct) auto

lemma length_mapLayer [simp]: "length (mapLayer ls i c k v) = length ls"
  by (induction ls arbitrary: i) auto

lemma nth_mapLayer:
  "j < length ls \<Longrightarrow>
   mapLayer ls i c k v ! j =
     (if i + int j = c then (ls ! j)\<lparr>poseImages := js_set (poseImages (ls ! j)) k v\<rparr> else ls ! j)"
proof (induction ls arbitrary: i j)
  case Nil
  then show ?case by simp
next
  case (Cons l ls)
  show ?case
  proof (cases j)
    case 0
    then show ?thesis by simp
  next
    case (Suc j')
    with Cons.prems have "j' < length ls" by simp
    from Cons.IH [OF this, of "i + 1"] Suc show ?thesis by (simp add: add.assoc)
  qed
qed

lemma js_nth_mapLayer:
  assumes "js_nth ls c = Some layer"
  shows "js_nth (mapLayer ls 0 c k v) c = Some (layer\<lparr>poseImages := js_set (poseImages layer) k v\<rparr>)"
proof -
  have c: "0 \<le> c" "c < int (length ls)" "ls ! nat c = layer"
    using js_nth_SomeD [OF assms] by auto
  then have "nat c < length ls" by simp
  from nth_mapLayer [OF this, of 0 c k v] c show ?thesis
    by (simp add: js_nth_def)
qed

lemma pose_await_success:
  assumes cs: "currentState s = Some cs" and idle: "\<not> isLoading s"
    and neq: "i \<noteq> currentPoseIndex cs"
    and layer: "js_nth (outfitHistory cs) (currentOutfitIndex cs) = Some layer"
    and miss: "\<not> truthy (js_get (poseImages layer) (js_nth POSE_INSTRUCTIONS i))"
    and base: "js_nth (object_values (poseImages layer)) 0 = Some b" "b \<noteq> []"
    and ok: "pv b (js_key (js_nth POSE_INSTRUCTIONS i)) = Inr newImageUrl"
  shows "handlePoseSelect pv fr s i =
           finallyBlock
             (recordNewState
                ((setLoading s ''Changing pose...'')
                   \<lparr>synthCalls := synthCalls s @ [PoseVariation b (js_key (js_nth POSE_INSTRUCTIONS i))]\<rparr>)
                (cs\<lparr>outfitHistory :=
                       mapLayer (outfitHistory cs) 0 (currentOutfitIndex cs)
                         (js_key (js_nth POSE_INSTRUCTIONS i)) newImageUrl,
                     currentPoseIndex := i\<rparr>))"
proof -
  have ne: "outfitHistory cs \<noteq> []" using js_nth_SomeD [OF layer] by auto
  show ?thesis
    using assms ne by (simp add: handlePoseSelect_def cur_simps Let_def)
qed

lemma pose_await_calls:
  assumes cs: "currentState s = Some cs" and idle: "\<not> isLoading s"
    and neq: "i \<noteq> currentPoseIndex cs"
    and layer: "js_nth (outfitHistory cs) (currentOutfitIndex cs) = Some layer"
    and miss: "\<not> truthy (js_get (poseImages layer) (js_nth POSE_INSTRUCTIONS i))"
    and base: "js_nth (object_values (poseImages layer)) 0 = Some b" "b \<noteq> []"
  shows "synthCalls (handlePoseSelect pv fr s i) =
           synthCalls s @ [PoseVariation b (js_key (js_nth POSE_INSTRUCTIONS i))]"
proof -
  have ne: "outfitHistory cs \<noteq> []" using js_nth_SomeD [OF layer] by auto
  show ?thesis
    using assms ne
    by (cases "pv b (js_key (js_nth POSE_INSTRUCTIONS i))")
       (simp_all add: handlePoseSelect_def cur_simps Let_def poseCatch_def)
qed

text \<open>
  Selecting a pose whose image is cached for the current layer records one state and
  calls no service.
\<close>

lemma pose_select_cached:
  assumes "currentState s = Some cs" "\<not> isLoading s" "i \<noteq> currentPoseIndex cs"
    and "js_nth (outfitHistory cs) (currentOutfitIndex cs) = Some layer"
    and "truthy (js_get (poseImages layer) (js_nth POSE_INSTRUCTIONS i))"
  shows "handlePoseSelect pv fr s i = recordNewState s (cs\<lparr>currentPoseIndex := i\<rparr>)"
proof -
  have ne: "outfitHistory cs \<noteq> []" using js_nth_SomeD [OF assms(4)] by auto
  show ?thesis using assms ne by (simp add: handlePoseSelect_def cur_simps)
qed

text \<open>The same for any master pose list.\<close>

lemma handlePoseSelect_With: "handlePoseSelect = handlePoseSelectWith POSE_INSTRUCTIONS"
  by (intro ext) (simp add: handlePoseSelect_def handlePoseSelectWith_def)

lemma pose_select_with_cached:
  assumes "currentState s = Some cs" "\<not> isLoading s" "i \<noteq> currentPoseIndex cs"
    and "js_nth (outfitHistory cs) (currentOutfitIndex cs) = Some layer"
    and "truthy (js_get (poseImages layer) (js_nth poses i))"
  shows "handlePoseSelectWith poses pv fr s i = recordNewState s (cs\<lparr>currentPoseIndex := i\<rparr>)"
proof -
  have ne: "outfitHistory cs \<noteq> []" using js_nth_SomeD [OF assms(4)] by auto
  show ?thesis using assms ne by (simp add: handlePoseSelectWith_def cur_simps)
qed

lemma pose_select_with_calls:
  assumes cs: "currentState s = Some cs" and idle: "\<not> isLoading s"
    and neq: "i \<noteq> currentPoseIndex cs"
    and layer: "js_nth (outfitHistory cs) (currentOutfitIndex cs) = Some layer"
    and miss: "\<not> truthy (js_get (poseImages layer) (js_nth poses i))"
    and base: "js_nth (object_values (poseImages layer)) 0 = Some b" "b \<noteq> []"
  shows "synthCalls (handlePoseSelectWith poses pv fr s i) =
           synthCalls s @ [PoseVariation b (js_key (js_nth poses i))]"
proof -
  have ne: "outfitHistory cs \<noteq> []" using js_nth_SomeD [OF layer] by auto
  show ?thesis
    using assms ne
    by (cases "pv b (js_key (js_nth poses i))")
       (simp_all add: handlePoseSelectWith_def cur_simps Let_def poseCatch_def)
qed

lemma pose_select_with_success:
  assumes cs: "currentState s = Some cs" and idle: "\<not> isLoading s"
    and neq: "i \<noteq> currentPoseIndex cs"
    and layer: "js_nth (outfitHistory cs) (currentOutfitIndex cs) = Some layer"
    and miss: "\<not> truthy (js_get (poseImages layer) (js_nth poses i))"
    and base: "js_nth (object_values (poseImages layer)) 0 = Some b" "b \<noteq> []"
    and ok: "pv b (js_key (js_nth poses i)) = Inr newImageUrl"
  shows "currentState (handlePoseSelectWith poses pv fr s i) =
           Some (cs\<lparr>outfitHistory :=
                       mapLayer (outfitHistory cs) 0 (currentOutfitIndex cs)
                         (js_key (js_nth poses i)) newImageUrl,
                     currentPoseIndex := i\<rparr>)"
proof -
  have ne: "outfitHistory cs \<noteq> []" using js_nth_SomeD [OF layer] by auto
  show ?thesis
    using assms ne
    by (simp add: handlePoseSelectWith_def cur_simps Let_def currentState_recordNewState)
qed

section \<open>The invariant of the reachable states\<close>

lemma state_ok_frame [simp]:
  "state_ok (finallyBlock s) = state_ok s"
  "state_ok (setLoading s m) = state_ok s"
  "state_ok (s\<lparr>synthCalls := c\<rparr>) = state_ok s"
  "state_ok (s\<lparr>wardrobe := w\<rparr>) = state_ok s"
  "state_ok (s\<lparr>error := e\<rparr>) = state_ok s"
  by (simp_all add: state_ok_def finallyBlock_def setLoading_def)

lemma state_ok_recordNewState:
  assumes "state_ok s" "snapshot_ok n"
  shows "state_ok (recordNewState s n)"
proof -
  have "- 1 \<le> historyIndex s" using assms(1) by (auto simp: state_ok_def split: if_splits)
  then have h: "history (recordNewState s n) = take (nat (historyIndex s + 1)) (history s) @ [n]"
    by (rule history_recordNewState)
  have "list_all snapshot_ok (take (nat (historyIndex s + 1)) (history s))"
    using assms(1) by (auto simp: state_ok_def list_all_iff dest: in_set_takeD)
  then show ?thesis
    using assms(2) h by (simp add: state_ok_def historyIndex_recordNewState)
qed

lemma state_ok_current:
  assumes "state_ok s" "currentState s = Some cs"
  shows "snapshot_ok cs"
proof -
  from js_nth_SomeD [OF assms(2) [unfolded currentState_def]]
  have "cs \<in> set (history s)" by (auto simp: in_set_conv_nth intro!: exI [of _ "nat (historyIndex s)"])
  then show ?thesis using assms(1) by (simp add: state_ok_def list_all_iff)
qed

lemma findIndex_from_none:
  "findIndex_from P xs i = - 1 \<Longrightarrow> 0 \<le> i \<Longrightarrow> \<forall>x \<in> set xs. \<not> P x"
proof (induction xs arbitrary: i)
  case Nil
  then show ?case by simp
next
  case (Cons x xs)
  then show ?case by (cases "P x") auto
qed

lemma findIndex_from_before:
  "findIndex_from P xs i = p \<Longrightarrow> p \<noteq> - 1 \<Longrightarrow> 0 \<le> i \<Longrightarrow> \<forall>x \<in> set (take (nat (p - i)) xs). \<not> P x"
proof (induction xs arbitrary: i)
  case Nil
  then show ?case by simp
next
  case (Cons x xs)
  show ?case
  proof (cases "P x")
    case True
    with Cons.prems show ?thesis by simp
  next
    case False
    with Cons.prems have rec: "findIndex_from P xs (i + 1) = p" by simp
    from findIndex_from_found [OF rec] Cons.prems have le: "i + 1 \<le> p" by simp
    from Cons.IH [OF rec] Cons.prems have ih: "\<forall>x \<in> set (take (nat (p - (i + 1))) xs). \<not> P x" by simp
    have n: "nat (p - i) = Suc (nat (p - (i + 1)))" using le by simp
    show ?thesis unfolding n using ih False by simp
  qed
qed

lemma findIndex_range: "findIndex P xs = - 1 \<or> 0 \<le> findIndex P xs"
proof (cases "findIndex P xs = - 1")
  case True
  then show ?thesis by simp
next
  case False
  from findIndex_from_found [OF refl, of P xs 0] False show ?thesis
    by (simp add: findIndex_def)
qed

text \<open>The base of a new layer is a non-empty prefix of the layers with no layer of the garment's category.\<close>

lemma baseHistorySlice_prefix:
  assumes cs: "currentState s = Some cs" and ok: "snapshot_ok cs"
  shows "\<exists>k. 0 < k \<and> k \<le> length (outfitHistory cs)
           \<and> baseHistorySlice s g = take k (outfitHistory cs)
           \<and> (\<forall>l \<in> set (take k (outfitHistory cs)). \<not> sameCategory g l)"
proof -
  let ?oh = "outfitHistory cs"
  let ?i = "currentOutfitIndex cs"
  let ?act = "activeOutfitLayers s"
  let ?p = "findIndex (sameCategory g) ?act"
  from ok have i: "0 \<le> ?i" "?i < int (length ?oh)" and g: "garments_ok (map garment ?oh)"
    by (simp_all add: snapshot_ok_def)
  have act: "?act = take (nat (?i + 1)) ?oh"
    using i by (simp add: activeOutfitLayers_eq [OF cs] js_slice0_take)
  have base0: "garment (?oh ! 0) = None" "?oh \<noteq> []"
    using g by (auto simp: garments_ok_def split: list.splits)
  have act0: "\<not> sameCategory g (?act ! 0)"
    using base0 i by (simp add: act sameCategory_def)
  have bs: "baseHistorySlice s g = (if ?p \<noteq> - 1 \<and> ?p > 0 then js_slice0 ?oh ?p else ?act)"
    by (simp add: baseHistorySlice_def Let_def cur_simps [OF cs] activeOutfitLayers_def)
  show ?thesis
  proof (cases "0 < ?p")
    case True
    note b = baseHistorySlice_replace [OF cs refl True]
    have "\<forall>l \<in> set (take (nat ?p) ?act). \<not> sameCategory g l"
      using findIndex_from_before [of "sameCategory g" ?act 0 ?p] True
      by (simp add: findIndex_def)
    then have "\<forall>l \<in> set (take (nat ?p) ?oh). \<not> sameCategory g l" unfolding b(4) .
    with b(1) b(2) True show ?thesis
      by (intro exI [of _ "nat ?p"]) simp
  next
    case False
    have "?p \<noteq> 0"
    proof
      assume z: "?p = 0"
      then have "findIndex_from (sameCategory g) ?act 0 = 0" by (simp add: findIndex_def)
      from findIndex_from_found [OF this] have "sameCategory g (?act ! 0)" by simp
      with act0 show False by simp
    qed
    with False findIndex_range [of "sameCategory g" ?act] have none: "?p = - 1" by auto
    then have "\<forall>l \<in> set ?act. \<not> sameCategory g l"
      using findIndex_from_none [of "sameCategory g" ?act 0] by (simp add: findIndex_def)
    moreover have "baseHistorySlice s g = ?act" using bs none by simp
    ultimately show ?thesis
      using i unfolding act by (intro exI [of _ "nat (?i + 1)"]) auto
  qed
qed

lemma garments_ok_extend:
  assumes g: "garments_ok (map garment ls)" and k: "0 < k" "k \<le> length ls"
    and fresh: "\<forall>l \<in> set (take k ls). \<not> sameCategory item l"
  shows "garments_ok (map garment (take k ls @ [\<lparr>garment = Some item, poseImages = m\<rparr>]))"
proof -
  from g obtain b rest where ls: "ls = b # rest" by (cases ls) (auto simp: garments_ok_def)
  from k obtain k' where k': "k = Suc k'" by (cases k) auto
  from g ls have b: "garment b = None" and some: "None \<notin> set (map garment rest)"
    and d: "distinct (map (map_option category) (map garment rest))"
    by (simp_all add: garments_ok_def)
  have tk: "take k ls = b # take k' rest" by (simp add: ls k')
  have some': "None \<notin> set (map garment (take k' rest))"
    using some by (auto dest: in_set_takeD)
  have d': "distinct (map (map_option category) (map garment (take k' rest)))"
    using d by (simp add: take_map [symmetric] distinct_take)
  have "\<forall>l \<in> set (take k' rest). Some (category item) \<noteq> map_option category (garment l)"
  proof
    fix l
    assume "l \<in> set (take k' rest)"
    then have "l \<in> set (take k ls)" using tk by simp
    with fresh have "\<not> sameCategory item l" by blast
    then show "Some (category item) \<noteq> map_option category (garment l)"
      by (cases "garment l") (auto simp: sameCategory_def)
  qed
  then have "Some (category item) \<notin> set (map (map_option category) (map garment (take k' rest)))"
    by force
  with b some' d' show ?thesis by (simp add: garments_ok_def tk)
qed

lemma map_garment_mapLayer [simp]: "map garment (mapLayer ls i c k v) = map garment ls"
  by (induction ls arbitrary: i) auto

lemma state_ok_initialApp: "state_ok initialApp"
  by (simp add: state_ok_def initialApp_def)

lemma state_ok_handleModelFinalized: "state_ok (handleModelFinalized s u m)"
  by (simp add: state_ok_def handleModelFinalized_def snapshot_ok_def garments_ok_def)

lemma state_ok_handleStartOver: "state_ok (handleStartOver s)"
  by (simp add: state_ok_def handleStartOver_def)

lemma state_ok_handleUndo: "state_ok s \<Longrightarrow> state_ok (handleUndo s)"
  by (auto simp: state_ok_def handleUndo_def canUndo_def split: if_splits)

lemma state_ok_handleRedo: "state_ok s \<Longrightarrow> state_ok (handleRedo s)"
  by (auto simp: state_ok_def handleRedo_def canRedo_def split: if_splits)

lemma state_ok_handleRemoveLastGarment:
  assumes "state_ok s"
  shows "state_ok (handleRemoveLastGarment s)"
proof (cases "currentState s")
  case None
  then show ?thesis using assms by (simp add: handleRemoveLastGarment_def)
next
  case (Some cs)
  note ok = state_ok_current [OF assms Some]
  show ?thesis
  proof (cases "currentOutfitIndex cs > 0")
    case True
    have "snapshot_ok (cs\<lparr>currentOutfitIndex := currentOutfitIndex cs - 1, currentPoseIndex := 0\<rparr>)"
      using ok True by (simp add: snapshot_ok_def)
    from state_ok_recordNewState [OF assms this] Some True show ?thesis
      by (simp add: handleRemoveLastGarment_def cur_simps)
  next
    case False
    then show ?thesis using assms Some by (simp add: handleRemoveLastGarment_def cur_simps)
  qed
qed

lemma snapshot_ok_new_layer:
  assumes cs: "currentState s = Some cs" and ok: "snapshot_ok cs"
  shows "snapshot_ok
           \<lparr>outfitHistory = baseHistorySlice s g @ [\<lparr>garment = Some g, poseImages = m\<rparr>],
            currentOutfitIndex = int (length (baseHistorySlice s g)),
            currentPoseIndex = c\<rparr>"
proof -
  from baseHistorySlice_prefix [OF cs ok, of g] obtain k where
    k: "0 < k" "k \<le> length (outfitHistory cs)" "baseHistorySlice s g = take k (outfitHistory cs)"
      "\<forall>l \<in> set (take k (outfitHistory cs)). \<not> sameCategory g l"
    by blast
  have "garments_ok (map garment (outfitHistory cs))" using ok by (simp add: snapshot_ok_def)
  from garments_ok_extend [OF this k(1) k(2) k(4), of m]
  show ?thesis unfolding k(3) by (simp add: snapshot_ok_def)
qed

lemma state_ok_handleGarmentSelect:
  assumes inv: "state_ok s"
  shows "state_ok (handleGarmentSelect gen fr s gf g)"
proof (cases "currentState s")
  case None
  then show ?thesis using inv by (simp add: handleGarmentSelect_def)
next
  case (Some cs)
  note ok = state_ok_current [OF inv Some]
  show ?thesis
  proof (cases "\<not> truthy (generatedModelUrl s) \<or> isLoading s")
    case True
    then show ?thesis using Some inv by (auto simp add: handleGarmentSelect_def)
  next
    case go: False
    show ?thesis
    proof (cases "redoMatches (js_nth (outfitHistory cs) (currentOutfitIndex cs + 1)) g")
      case True
      then obtain l where "js_nth (outfitHistory cs) (currentOutfitIndex cs + 1) = Some l"
        by (auto simp: redoMatches_def split: option.splits)
      from js_nth_SomeD [OF this] ok
      have "snapshot_ok (cs\<lparr>currentOutfitIndex := currentOutfitIndex cs + 1, currentPoseIndex := 0\<rparr>)"
        by (simp add: snapshot_ok_def)
      from state_ok_recordNewState [OF inv this] Some go True show ?thesis
        by (simp add: handleGarmentSelect_def cur_simps)
    next
      case noredo: False
      show ?thesis
      proof (cases "js_nth (baseHistorySlice s g) (int (length (baseHistorySlice s g)) - 1)")
        case None
        then show ?thesis using Some go noredo inv
          by (simp add: handleGarmentSelect_def Let_def garmentCatch_def cur_simps)
      next
        case bl: (Some baseLayer)
        show ?thesis
        proof (cases "imageOrFirst baseLayer (js_nth POSE_INSTRUCTIONS (currentPoseIndex cs))")
          case None
          then show ?thesis using Some go noredo bl inv
            by (simp add: handleGarmentSelect_def Let_def garmentCatch_def cur_simps)
        next
          case im: (Some b)
          show ?thesis
          proof (cases "b = []")
            case True
            then show ?thesis using Some go noredo bl im inv
              by (simp add: handleGarmentSelect_def Let_def garmentCatch_def cur_simps)
          next
            case False
            show ?thesis
            proof (cases "gen b gf (category g)")
              case (Inl err)
              then show ?thesis using Some go noredo bl im False inv
                by (simp add: handleGarmentSelect_def Let_def garmentCatch_def cur_simps)
            next
              case (Inr img)
              have "state_ok (recordNewState
                      ((setLoading s (''Adding '' @ name g @ ''...''))
                         \<lparr>synthCalls := synthCalls s @ [VirtualTryOn b (category g)]\<rparr>)
                      \<lparr>outfitHistory = baseHistorySlice s g @
                         [\<lparr>garment = Some g,
                           poseImages = [(js_key (js_nth POSE_INSTRUCTIONS (currentPoseIndex cs)), img)]\<rparr>],
                       currentOutfitIndex = int (length (baseHistorySlice s g @
                         [\<lparr>garment = Some g,
                           poseImages = [(js_key (js_nth POSE_INSTRUCTIONS (currentPoseIndex cs)), img)]\<rparr>])) - 1,
                       currentPoseIndex = currentPoseIndex cs\<rparr>)"
                by (rule state_ok_recordNewState) (simp_all add: inv snapshot_ok_new_layer [OF Some ok])
              then show ?thesis using Some go noredo bl im False Inr
                by (simp add: handleGarmentSelect_def Let_def cur_simps)
            qed
          qed
        qed
      qed
    qed
  qed
qed

lemma state_ok_handlePoseSelect:
  assumes inv: "state_ok s"
  shows "state_ok (handlePoseSelect pv fr s i)"
proof (cases "currentState s")
  case None
  then show ?thesis using inv by (simp add: handlePoseSelect_def)
next
  case (Some cs)
  note ok = state_ok_current [OF inv Some]
  have ok1: "snapshot_ok (cs\<lparr>currentPoseIndex := i\<rparr>)"
    using ok by (simp add: snapshot_ok_def)
  have ok2: "snapshot_ok (cs\<lparr>outfitHistory := mapLayer (outfitHistory cs) 0 c k v, currentPoseIndex := i\<rparr>)"
    for c k v
    using ok by (simp add: snapshot_ok_def)
  show ?thesis
  proof (cases "isLoading s \<or> outfitHistory cs = [] \<or> i = currentPoseIndex cs")
    case True
    then show ?thesis using Some inv by (auto simp: handlePoseSelect_def cur_simps)
  next
    case go: False
    show ?thesis
    proof (cases "js_nth (outfitHistory cs) (currentOutfitIndex cs)")
      case None
      then show ?thesis using Some go inv by (simp add: handlePoseSelect_def cur_simps)
    next
      case layer: (Some currentLayer)
      show ?thesis
      proof (cases "truthy (js_get (poseImages currentLayer) (js_nth POSE_INSTRUCTIONS i))")
        case True
        from state_ok_recordNewState [OF inv ok1] Some go layer True show ?thesis
          by (simp add: handlePoseSelect_def cur_simps)
      next
        case miss: False
        show ?thesis
        proof (cases "js_nth (object_values (poseImages currentLayer)) 0")
          case None
          then show ?thesis using Some go layer miss inv
            by (simp add: handlePoseSelect_def cur_simps)
        next
          case base: (Some b)
          show ?thesis
          proof (cases "b = []")
            case True
            then show ?thesis using Some go layer miss base inv
              by (simp add: handlePoseSelect_def cur_simps)
          next
            case False
            show ?thesis
            proof (cases "pv b (js_key (js_nth POSE_INSTRUCTIONS i))")
              case (Inl err)
              then show ?thesis using Some go layer miss base False inv
                by (simp add: handlePoseSelect_def cur_simps Let_def poseCatch_def)
            next
              case (Inr img)
              have "state_ok (recordNewState
                      ((setLoading s ''Changing pose...'')
                         \<lparr>synthCalls := synthCalls s @
                            [PoseVariation b (js_key (js_nth POSE_INSTRUCTIONS i))]\<rparr>)
                      (cs\<lparr>outfitHistory := mapLayer (outfitHistory cs) 0 (currentOutfitIndex cs)
                                             (js_key (js_nth POSE_INSTRUCTIONS i)) img,
                          currentPoseIndex := i\<rparr>))"
                by (rule state_ok_recordNewState) (simp_all add: inv ok2)
              then show ?thesis using Some go layer miss base False Inr
                by (simp add: handlePoseSelect_def cur_simps Let_def)
            qed
          qed
        qed
      qed
    qed
  qed
qed

lemma reachable_state_ok: "reachable s \<Longrightarrow> state_ok s"
proof (induction rule: reachable.induct)
  case mount
  show ?case by (rule state_ok_initialApp)
next
  case (finalize s originalUrl generatedUrl)
  show ?case by (rule state_ok_handleModelFinalized)
next
  case (startOver s)
  show ?case by (rule state_ok_handleStartOver)
next
  case (undo s)
  from undo.IH show ?case by (rule state_ok_handleUndo)
next
  case (redo s)
  from redo.IH show ?case by (rule state_ok_handleRedo)
next
  case (garmentSelect s gen fr gf g)
  from garmentSelect.IH show ?case by (rule state_ok_handleGarmentSelect)
next
  case (removeLast s)
  from removeLast.IH show ?case by (rule state_ok_handleRemoveLastGarment)
next
  case (poseSelect s pv fr i)
  from poseSelect.IH show ?case by (rule state_ok_handlePoseSelect)
qed

lemma sameCategory_category:
  "sameCategory g l \<Longrightarrow> map_option category (garment l) = Some (category g)"
  by (cases "garment l") (simp_all add: sameCategory_def)

lemma state_ok_same_category_unique:
  assumes inv: "state_ok s" and cs: "currentState s = Some cs"
    and p: "0 < p" "p < int (length (activeOutfitLayers s))"
    and same: "sameCategory g (activeOutfitLayers s ! nat p)"
  shows "findIndex (sameCategory g) (activeOutfitLayers s) = p"
proof -
  let ?oh = "outfitHistory cs"
  let ?act = "activeOutfitLayers s"
  let ?q = "findIndex (sameCategory g) ?act"
  let ?c = "\<lambda>l. map_option category (garment l)"
  have ok: "snapshot_ok cs" using state_ok_current [OF inv cs] .
  then have g: "garments_ok (map garment ?oh)" by (simp add: snapshot_ok_def)
  then obtain b rest where oh: "?oh = b # rest" by (cases ?oh) (auto simp: garments_ok_def)
  from g oh have b: "garment b = None" and d: "distinct (map ?c rest)"
    by (simp_all add: garments_ok_def comp_def)
  obtain k where k: "?act = take k ?oh"
    using activeOutfitLayers_eq [OF cs] js_slice0_prefix [of ?oh] by metis
  have np: "nat p < length ?act" using p by simp
  have q: "0 \<le> ?q" "?q \<le> p"
    using findIndex_first [where P = "sameCategory g" and xs = ?act and j = "nat p"] np same p
    by simp_all
  have act0: "?act ! 0 = b" using k np oh by (cases k) auto
  have "?q \<noteq> 0"
  proof
    assume "?q = 0"
    then have "findIndex_from (sameCategory g) ?act 0 = 0" by (simp add: findIndex_def)
    from findIndex_from_found [OF this] have "sameCategory g (?act ! 0)" by simp
    then show False using act0 b by (simp add: sameCategory_def)
  qed
  with q have qpos: "0 < ?q" by simp
  have sq: "sameCategory g (?act ! nat ?q)" using findIndex_found [OF refl qpos] by simp
  have nq: "nat ?q < length ?act" using q np by simp
  obtain p' where p': "nat p = Suc p'" using p by (cases "nat p") auto
  obtain q' where q': "nat ?q = Suc q'" using qpos by (cases "nat ?q") auto
  have inp: "?act ! nat p = rest ! p'" "p' < length rest"
    using prefix_take_nth [OF k np] oh p' by auto
  have inq: "?act ! nat ?q = rest ! q'" "q' < length rest"
    using prefix_take_nth [OF k nq] oh q' by auto
  have cp: "?c (rest ! p') = Some (category g)"
    using sameCategory_category [OF same] unfolding inp(1) .
  have cq: "?c (rest ! q') = Some (category g)"
    using sameCategory_category [OF sq] unfolding inq(1) .
  have e: "map ?c rest ! p' = map ?c rest ! q'"
    unfolding nth_map [OF inp(2)] nth_map [OF inq(2)] cp cq ..
  have "p' < length (map ?c rest)" "q' < length (map ?c rest)"
    using inp(2) inq(2) by simp_all
  from nth_eq_iff_index_eq [OF d this] e have "p' = q'" by blast
  with p' q' have "nat p = nat ?q" by simp
  with p qpos show ?thesis by simp
qed

lemma reachable_same_category_unique:
  assumes "reachable s" "currentState s = Some cs"
    and "0 < p" "p < int (length (activeOutfitLayers s))"
    and "sameCategory g (activeOutfitLayers s ! nat p)"
  shows "findIndex (sameCategory g) (activeOutfitLayers s) = p"
  using state_ok_same_category_unique [OF reachable_state_ok] assms by blast

text \<open>The example states are reachable.\<close>

lemma reachable_b6: "reachable b6"
  unfolding b6_def b5_def b4_def b3_def b2_def a1_def
  by (intro reachable.intros)

lemma reachable_c2: "reachable c2"
  unfolding c2_def c1_def b5_def b4_def b3_def b2_def a1_def
  by (intro reachable.intros)

lemma reachable_a3: "reachable a3"
  unfolding a3_def a2_def a1_def
  by (intro reachable.intros)

section \<open>Facts about pose navigation\<close>

lemma js_rem_range:
  "0 \<le> a \<Longrightarrow> 0 < b \<Longrightarrow> \<exists>r. js_rem a b = Idx r \<and> 0 \<le> r \<and> r < b"
  by (cases "a = 0") (simp_all add: js_rem_def)

lemma indexOf_found:
  assumes "indexOf xs k = j" "j \<noteq> - 1"
  shows "\<exists>x. k = Some x \<and> 0 \<le> j \<and> j < int (length xs) \<and> xs ! nat j = x"
proof (cases k)
  case None
  with assms show ?thesis by simp
next
  case (Some x)
  with assms have "findIndex_from (\<lambda>y. y = x) xs 0 = j" by (simp add: findIndex_def)
  from findIndex_from_found [OF this assms(2)] Some show ?thesis by simp
qed

lemma previous_pose_stays_in_generated:
  assumes cur: "indexOf keys (js_nth poses c) \<noteq> - 1"
    and sel: "handlePreviousPose busy poses c keys = Some (Idx j)"
  shows "\<exists>k. js_nth poses j = Some k \<and> k \<in> set keys"
proof -
  let ?ci = "indexOf keys (js_nth poses c)"
  from sel have nb: "\<not> busy" "1 < length keys"
    by (auto simp: handlePreviousPose_def split: if_splits)
  have ci: "0 \<le> ?ci" "?ci < int (length keys)"
    using indexOf_found [OF refl cur] by auto
  have pre: "0 \<le> ?ci - 1 + int (length keys)" "0 < int (length keys)"
    using ci nb by auto
  obtain r where r: "js_rem (?ci - 1 + int (length keys)) (int (length keys)) = Idx r"
      "0 \<le> r" "r < int (length keys)"
    using js_rem_range [OF pre] by blast
  have prev: "js_nth keys r = Some (keys ! nat r)" using r by (simp add: js_nth_def)
  from sel cur nb r prev have j: "indexOf poses (Some (keys ! nat r)) = j" "j \<noteq> - 1"
    by (auto simp: handlePreviousPose_def Let_def split: if_splits)
  from indexOf_found [OF j] have "0 \<le> j" "j < int (length poses)" "poses ! nat j = keys ! nat r"
    by auto
  then have "js_nth poses j = Some (keys ! nat r)" by (simp add: js_nth_def)
  moreover have "keys ! nat r \<in> set keys" using r by simp
  ultimately show ?thesis by blast
qed

lemma next_pose_at_end:
  assumes "\<not> busy" "indexOf keys (js_nth poses c) = int (length keys) - 1" "keys \<noteq> []"
  shows "handleNextPose busy poses c keys = Some (js_rem (c + 1) (int (length poses)))"
  using assms by (simp add: handleNextPose_def Let_def)

text \<open>
  When the current pose is among the generated poses of the current layer and no stored
  image is empty, a click on "previous" selects a cached pose and calls no service.
\<close>

lemma pose_select_calls_cases:
  "synthCalls (handlePoseSelect pv fr s i) = synthCalls s \<or>
   (\<exists>cs layer. currentState s = Some cs
      \<and> js_nth (outfitHistory cs) (currentOutfitIndex cs) = Some layer
      \<and> \<not> truthy (js_get (poseImages layer) (js_nth POSE_INSTRUCTIONS i)))"
proof (cases "currentState s")
  case None
  then show ?thesis by (simp add: handlePoseSelect_def)
next
  case (Some cs)
  show ?thesis
  proof (cases "js_nth (outfitHistory cs) (currentOutfitIndex cs)")
    case None
    then show ?thesis using Some by (simp add: handlePoseSelect_def cur_simps)
  next
    case layer: (Some layer)
    show ?thesis
    proof (cases "truthy (js_get (poseImages layer) (js_nth POSE_INSTRUCTIONS i))")
      case True
      then show ?thesis using Some layer
        by (simp add: handlePoseSelect_def cur_simps recordNewState_def Let_def)
    next
      case False
      then show ?thesis using Some layer by blast
    qed
  qed
qed

lemma previous_pose_cached:
  assumes cur: "indexOf (availablePoseKeys s)
                  (js_nth POSE_INSTRUCTIONS (currentPoseIndex_cur s)) \<noteq> - 1"
    and images: "\<forall>cs layer. currentState s = Some cs \<longrightarrow>
                   js_nth (outfitHistory cs) (currentOutfitIndex cs) = Some layer \<longrightarrow>
                   [] \<notin> set (object_values (poseImages layer))"
  shows "synthCalls (clickPreviousPose pv fr s) = synthCalls s"
proof (cases "poseControlsShown s")
  case False
  then show ?thesis by (simp add: clickPreviousPose_def)
next
  case True
  let ?call = "handlePreviousPose (isLoading s) POSE_INSTRUCTIONS (currentPoseIndex_cur s)
                 (availablePoseKeys s)"
  show ?thesis
  proof (cases ?call)
    case None
    then show ?thesis using True by (simp add: clickPreviousPose_def onSelectPose_def)
  next
    case (Some c)
    show ?thesis
    proof (cases c)
      case NaN
      then show ?thesis using True Some by (simp add: clickPreviousPose_def onSelectPose_def)
    next
      case (Idx j)
      have eq: "clickPreviousPose pv fr s = handlePoseSelect pv fr s j"
        using True Some Idx by (simp add: clickPreviousPose_def onSelectPose_def)
      from previous_pose_stays_in_generated [OF cur] Some Idx
      obtain k where k: "js_nth POSE_INSTRUCTIONS j = Some k" "k \<in> set (availablePoseKeys s)"
        by blast
      show ?thesis
      proof (rule disjE [OF pose_select_calls_cases [of pv fr s j]])
        assume "synthCalls (handlePoseSelect pv fr s j) = synthCalls s"
        then show ?thesis unfolding eq .
      next
        assume "\<exists>cs layer. currentState s = Some cs
                  \<and> js_nth (outfitHistory cs) (currentOutfitIndex cs) = Some layer
                  \<and> \<not> truthy (js_get (poseImages layer) (js_nth POSE_INSTRUCTIONS j))"
        then obtain cs layer where cs: "currentState s = Some cs"
          and layer: "js_nth (outfitHistory cs) (currentOutfitIndex cs) = Some layer"
          and miss: "\<not> truthy (js_get (poseImages layer) (js_nth POSE_INSTRUCTIONS j))"
          by blast
        have keys: "availablePoseKeys s = object_keys (poseImages layer)"
          using k(2) layer by (auto simp: availablePoseKeys_def cur_simps [OF cs] split: if_splits)
        then have "k \<in> fst ` set (poseImages layer)" using k(2) by (simp add: object_keys_def)
        then obtain v where v: "map_of (poseImages layer) k = Some v"
          by (cases "map_of (poseImages layer) k") (auto simp: map_of_eq_None_iff)
        then have "(k, v) \<in> set (poseImages layer)" by (rule map_of_SomeD)
        then have "v \<in> set (object_values (poseImages layer))"
          by (force simp: object_values_def)
        with images cs layer have "v \<noteq> []" by blast
        with v k(1) miss show ?thesis by (simp add: js_get_def)
      qed
    qed
  qed
qed

text \<open>
  Through the wardrobe grid a garment whose id is active never reaches
  \<open>handleGarmentSelect\<close>.
\<close>

lemma garment_click_active:
  "id_w item \<in> set (activeGarmentIds s) \<Longrightarrow> handleGarmentClick urlToFile gen fr s item = s"
  by (simp add: handleGarmentClick_def)

lemma garment_click_example:
  "handleGarmentClick exampleUrlToFile exampleTryOn exampleFriendly a2 shirtA = a2"
  "handleGarmentClick exampleUrlToFile exampleTryOn exampleFriendly b5 shirtA = b6"
  by code_simp+

section \<open>Garment selection\<close>

text \<open>
  Claim C3. In a state where the handler runs (a model, not busy, a current snapshot), the
  redo check does not fire and the category scan of the active layers finds the new
  garment's category first at position \<open>p > 0\<close>: when the service returns an image for the
  image of layer \<open>p - 1\<close>, that layer is the base of the call, and the new current snapshot has
  the layers \<open>0..p-1\<close> followed by one new layer holding the garment; its active stack is the
  same, so the layers at and above \<open>p\<close> are gone. In a reachable state a layer of that
  category at a position \<open>p > 0\<close> of the active layers is the only one, hence the one the
  scan finds (lemma \<open>reachable_same_category_unique\<close>).
\<close>

theorem replace_same_category_layer:
  assumes cs: "currentState s = Some cs"
    and url: "truthy (generatedModelUrl s)" and idle: "\<not> isLoading s"
    and noredo: "\<not> redoMatches (js_nth (outfitHistory cs) (currentOutfitIndex cs + 1)) g"
    and found: "findIndex (sameCategory g) (activeOutfitLayers s) = p" and pos: "0 < p"
    and img: "imageOrFirst (outfitHistory cs ! nat (p - 1))
                (js_nth POSE_INSTRUCTIONS (currentPoseIndex cs)) = Some b" "b \<noteq> []"
    and ok: "gen b gf (category g) = Inr newImageUrl"
  shows "sameCategory g (activeOutfitLayers s ! nat p)
       \<and> synthCalls (handleGarmentSelect gen fr s gf g) = synthCalls s @ [VirtualTryOn b (category g)]
       \<and> currentState (handleGarmentSelect gen fr s gf g) =
           Some \<lparr>outfitHistory = take (nat p) (outfitHistory cs) @
                    [\<lparr>garment = Some g,
                      poseImages = [(js_key (js_nth POSE_INSTRUCTIONS (currentPoseIndex cs)), newImageUrl)]\<rparr>],
                 currentOutfitIndex = p,
                 currentPoseIndex = currentPoseIndex cs\<rparr>
       \<and> activeOutfitLayers (handleGarmentSelect gen fr s gf g) =
           take (nat p) (activeOutfitLayers s) @
             [\<lparr>garment = Some g,
               poseImages = [(js_key (js_nth POSE_INSTRUCTIONS (currentPoseIndex cs)), newImageUrl)]\<rparr>]"
proof -
  let ?oh = "outfitHistory cs"
  let ?new = "\<lparr>garment = Some g,
               poseImages = [(js_key (js_nth POSE_INSTRUCTIONS (currentPoseIndex cs)), newImageUrl)]\<rparr>"
  let ?s' = "handleGarmentSelect gen fr s gf g"
  note b = baseHistorySlice_replace [OF cs found pos]
  have bl: "js_nth (baseHistorySlice s g) (int (length (baseHistorySlice s g)) - 1) = Some (?oh ! nat (p - 1))"
    by (rule b(6))
  note r = garment_await_success [where gen = gen and gf = gf and fr = fr, OF cs bl img url idle noredo ok]
  have cur: "currentState ?s' = Some \<lparr>outfitHistory = take (nat p) ?oh @ [?new],
                 currentOutfitIndex = p, currentPoseIndex = currentPoseIndex cs\<rparr>"
    using r(1) b(2) pos unfolding b(1) by (simp add: min_def)
  have act': "activeOutfitLayers ?s' = take (nat p) (activeOutfitLayers s) @ [?new]"
    using b(2) pos
    by (simp add: activeOutfitLayers_eq [OF cur] js_slice0_take b(4))
  show ?thesis using b(5) r(2) cur act' by simp
qed

text \<open>Active layers base, \<open>shirtA\<close>, \<open>pantsX\<close>; selecting \<open>shirtB\<close> gives base, \<open>shirtB\<close>.\<close>

theorem replace_same_category_layer_example:
  "currentState a3 = Some (last (history a3))
   \<and> truthy (generatedModelUrl a3) \<and> \<not> isLoading a3
   \<and> map garment (activeOutfitLayers a3) = [None, Some shirtA, Some pantsX]
   \<and> findIndex (sameCategory shirtB) (activeOutfitLayers a3) = 1
   \<and> map garment (activeOutfitLayers (handleGarmentSelect exampleTryOn exampleFriendly a3 ''B'' shirtB))
       = [None, Some shirtB]"
proof -
  let ?cs = "last (history a3)"
  let ?s' = "handleGarmentSelect exampleTryOn exampleFriendly a3 ''B'' shirtB"
  have h1: "currentState a3 = Some ?cs" by code_simp
  have h2: "truthy (generatedModelUrl a3)" by code_simp
  have h3: "\<not> isLoading a3" by code_simp
  have h4: "\<not> redoMatches (js_nth (outfitHistory ?cs) (currentOutfitIndex ?cs + 1)) shirtB"
    by code_simp
  have h5: "findIndex (sameCategory shirtB) (activeOutfitLayers a3) = 1" by code_simp
  have h6: "(0::int) < 1" by simp
  have h7: "imageOrFirst (outfitHistory ?cs ! nat (1 - 1))
              (js_nth POSE_INSTRUCTIONS (currentPoseIndex ?cs)) = Some ''model.png''"
    by code_simp
  have h8: "''model.png'' \<noteq> []" by simp
  have h9: "exampleTryOn ''model.png'' ''B'' (category shirtB) = Inr ''model.png+B''"
    by code_simp
  have act: "map garment (activeOutfitLayers a3) = [None, Some shirtA, Some pantsX]"
    by code_simp
  note t = replace_same_category_layer
    [where gen = exampleTryOn and fr = exampleFriendly and gf = "''B''",
     OF h1 h2 h3 h4 h5 h6 h7 h8 h9]
  from t have "map garment (activeOutfitLayers ?s') =
                 take 1 (map garment (activeOutfitLayers a3)) @ [Some shirtB]"
    by (simp add: take_map)
  then have "map garment (activeOutfitLayers ?s') = [None, Some shirtB]"
    unfolding act by simp
  then show ?thesis using h1 h2 h3 h5 act by simp
qed




text \<open>
  What \<open>handleGarmentSelect\<close> would do if it were called directly with the garment of the
  top active layer, in a state that satisfies the invariant: the category scan finds the
  top layer itself and the new layer replaces it, so the stack keeps its length.
\<close>

lemma direct_reapply_replaces_top:
  assumes inv: "state_ok s" and cs: "currentState s = Some cs"
    and url: "truthy (generatedModelUrl s)" and idle: "\<not> isLoading s"
    and top: "js_nth (outfitHistory cs) (currentOutfitIndex cs) = Some topLayer"
      "garment topLayer = Some t" "id_w t = id_w g" "category t = category g"
    and noredo: "\<not> redoMatches (js_nth (outfitHistory cs) (currentOutfitIndex cs + 1)) g"
    and img: "imageOrFirst (outfitHistory cs ! nat (currentOutfitIndex cs - 1))
                (js_nth POSE_INSTRUCTIONS (currentPoseIndex cs)) = Some b" "b \<noteq> []"
    and ok: "gen b gf (category g) = Inr newImageUrl"
  shows "0 < currentOutfitIndex cs
       \<and> findIndex (sameCategory g) (activeOutfitLayers s) = currentOutfitIndex cs
       \<and> synthCalls (handleGarmentSelect gen fr s gf g) = synthCalls s @ [VirtualTryOn b (category g)]
       \<and> activeOutfitLayers (handleGarmentSelect gen fr s gf g) =
           butlast (activeOutfitLayers s) @
             [\<lparr>garment = Some g,
               poseImages = [(js_key (js_nth POSE_INSTRUCTIONS (currentPoseIndex cs)), newImageUrl)]\<rparr>]
       \<and> length (activeOutfitLayers (handleGarmentSelect gen fr s gf g)) = length (activeOutfitLayers s)"
proof -
  let ?oh = "outfitHistory cs"
  let ?act = "activeOutfitLayers s"
  let ?i = "currentOutfitIndex cs"
  let ?new = "\<lparr>garment = Some g,
               poseImages = [(js_key (js_nth POSE_INSTRUCTIONS (currentPoseIndex cs)), newImageUrl)]\<rparr>"
  let ?s' = "handleGarmentSelect gen fr s gf g"
  have sok: "snapshot_ok cs" by (rule state_ok_current [OF inv cs])
  have i: "0 \<le> ?i" "?i < int (length ?oh)" "?oh ! nat ?i = topLayer"
    using js_nth_SomeD [OF top(1)] by auto
  have base0: "garment (?oh ! 0) = None"
    using sok by (auto simp: snapshot_ok_def garments_ok_def split: list.splits)
  have "?i \<noteq> 0" using base0 i(3) top(2) by auto
  with i have pos: "0 < ?i" by simp
  have act: "?act = take (nat (?i + 1)) ?oh"
    using i by (simp add: activeOutfitLayers_eq [OF cs] js_slice0_take)
  have len: "length ?act = nat (?i + 1)" unfolding act using i by (auto simp: min_def)
  have top_in: "?i < int (length ?act)" "sameCategory g (?act ! nat ?i)"
    using i top len by (simp_all add: act sameCategory_def)
  have found: "findIndex (sameCategory g) ?act = ?i"
    by (rule state_ok_same_category_unique [OF inv cs pos top_in])
  note b = baseHistorySlice_replace [OF cs found pos]
  have bl: "js_nth (baseHistorySlice s g) (int (length (baseHistorySlice s g)) - 1) =
              Some (?oh ! nat (?i - 1))"
    by (rule b(6))
  note r = garment_await_success [where gen = gen and gf = gf and fr = fr, OF cs bl img url idle noredo ok]
  have cur: "currentState ?s' = Some \<lparr>outfitHistory = take (nat ?i) ?oh @ [?new],
                 currentOutfitIndex = ?i, currentPoseIndex = currentPoseIndex cs\<rparr>"
    using r(1) b(2) pos unfolding b(1) by (simp add: min_def)
  have "activeOutfitLayers ?s' = take (nat ?i) ?act @ [?new]"
    using b(2) pos
    by (simp add: activeOutfitLayers_eq [OF cur] js_slice0_take b(4))
  moreover have "take (nat ?i) ?act = butlast ?act"
    using len pos by (simp add: butlast_conv_take nat_add_distrib)
  ultimately have act': "activeOutfitLayers ?s' = butlast ?act @ [?new]" by simp
  have "length (activeOutfitLayers ?s') = length ?act"
    unfolding act' using len pos by simp
  then show ?thesis using pos found r(2) act' by simp
qed

text \<open>
  Claim C2. When the call to the image service made by \<open>handleGarmentSelect\<close> fails, the
  handler leaves the history log, \<open>historyIndex\<close>, the current \<open>outfitHistory\<close> and the
  wardrobe as they were, sets the error message and clears the busy flag.
\<close>

theorem failed_garment_apply_is_atomic:
  assumes made: "synthCalls (handleGarmentSelect gen fr s gf g) =
                   synthCalls s @ [VirtualTryOn b (category g)]"
    and fail: "gen b gf (category g) = Inl err"
  shows "history (handleGarmentSelect gen fr s gf g) = history s
       \<and> historyIndex (handleGarmentSelect gen fr s gf g) = historyIndex s
       \<and> outfitHistory_cur (handleGarmentSelect gen fr s gf g) = outfitHistory_cur s
       \<and> wardrobe (handleGarmentSelect gen fr s gf g) = wardrobe s
       \<and> error (handleGarmentSelect gen fr s gf g) = Some (fr err ''Failed to apply garment'')
       \<and> \<not> isLoading (handleGarmentSelect gen fr s gf g)"
proof -
  let ?s' = "handleGarmentSelect gen fr s gf g"
  from garment_calls_cases [where gen = gen and fr = fr and s = s and gf = gf and g = g] made
  obtain cs baseLayer b' where
      cs: "currentState s = Some cs"
    and bl: "js_nth (baseHistorySlice s g) (int (length (baseHistorySlice s g)) - 1) = Some baseLayer"
    and im: "imageOrFirst baseLayer (js_nth POSE_INSTRUCTIONS (currentPoseIndex_cur s)) = Some b'" "b' \<noteq> []"
    and go: "truthy (generatedModelUrl s)" "\<not> isLoading s"
      "\<not> redoMatches (js_nth (outfitHistory_cur s) (currentOutfitIndex_cur s + 1)) g"
    and calls: "synthCalls ?s' = synthCalls s @ [VirtualTryOn b' (category g)]"
    by auto
  from made calls have "b' = b" by simp
  with im have im': "imageOrFirst baseLayer (js_nth POSE_INSTRUCTIONS (currentPoseIndex_cur s)) = Some b" "b \<noteq> []"
    by simp_all
  have eq: "?s' = s\<lparr>error := Some (fr err ''Failed to apply garment''), isLoading := False,
             loadingMessage := [],
             synthCalls := synthCalls s @ [VirtualTryOn b (category g)]\<rparr>"
    by (rule garment_await_failure [where gen = gen and gf = gf and err = err, OF cs bl im' go fail])
  show ?thesis unfolding eq by (simp add: outfitHistory_cur_def currentState_def)
qed

theorem failed_garment_apply_example:
  "synthCalls (handleGarmentSelect failingTryOn exampleFriendly a3 ''B'' shirtB) =
     synthCalls a3 @ [VirtualTryOn ''model.png'' (category shirtB)]
   \<and> failingTryOn ''model.png'' ''B'' (category shirtB) = Inl (Error ''service unavailable'')
   \<and> history (handleGarmentSelect failingTryOn exampleFriendly a3 ''B'' shirtB) = history a3
   \<and> historyIndex (handleGarmentSelect failingTryOn exampleFriendly a3 ''B'' shirtB) = 2
   \<and> wardrobe (handleGarmentSelect failingTryOn exampleFriendly a3 ''B'' shirtB) = wardrobe a3
   \<and> error (handleGarmentSelect failingTryOn exampleFriendly a3 ''B'' shirtB) =
       Some ''Failed to apply garment: service unavailable''"
proof -
  have h1: "synthCalls (handleGarmentSelect failingTryOn exampleFriendly a3 ''B'' shirtB) =
              synthCalls a3 @ [VirtualTryOn ''model.png'' (category shirtB)]"
    by code_simp
  have h2: "failingTryOn ''model.png'' ''B'' (category shirtB) = Inl (Error ''service unavailable'')"
    by code_simp
  have i: "historyIndex a3 = 2" by code_simp
  have m: "exampleFriendly (Error ''service unavailable'') ''Failed to apply garment'' =
             ''Failed to apply garment: service unavailable''"
    by code_simp
  note t = failed_garment_apply_is_atomic
    [where gen = failingTryOn and fr = exampleFriendly and gf = "''B''", OF h1 h2]
  show ?thesis using h1 h2 i m t by simp
qed

text \<open>
  Claim C4, as stated: when the redo check fires and the cursor is not at the last index, no
  snapshot beyond the cursor is discarded. In \<open>c2\<close> the log has six snapshots and the
  cursor is at 4; the layer beyond the active index holds \<open>shirtA\<close>, so selecting \<open>shirtA\<close>
  is the redo case. Afterwards the sixth snapshot of \<open>c2\<close> is no longer in the log.
\<close>

theorem garment_redo_counterexample:
  "reachable c2
   \<and> length (history c2) = 6 \<and> historyIndex c2 = 4
   \<and> redoMatches (js_nth (outfitHistory_cur c2) (currentOutfitIndex_cur c2 + 1)) shirtA
   \<and> synthCalls (handleGarmentSelect exampleTryOn exampleFriendly c2 ''A'' shirtA) = synthCalls c2
   \<and> length (history (handleGarmentSelect exampleTryOn exampleFriendly c2 ''A'' shirtA)) = 6
   \<and> history c2 ! 5 \<notin> set (history (handleGarmentSelect exampleTryOn exampleFriendly c2 ''A'' shirtA))"
proof -
  have "length (history c2) = 6" and "historyIndex c2 = 4"
    and "redoMatches (js_nth (outfitHistory_cur c2) (currentOutfitIndex_cur c2 + 1)) shirtA"
    and "synthCalls (handleGarmentSelect exampleTryOn exampleFriendly c2 ''A'' shirtA) = synthCalls c2"
    and "length (history (handleGarmentSelect exampleTryOn exampleFriendly c2 ''A'' shirtA)) = 6"
    and "history c2 ! 5 \<notin> set (history (handleGarmentSelect exampleTryOn exampleFriendly c2 ''A'' shirtA))"
    by code_simp+
  with reachable_c2 show ?thesis by simp
qed

text \<open>
  Claim C4, amended. When the redo check fires, the handler calls no service and records a
  snapshot as every other recording does: the log becomes the prefix up to the cursor
  followed by the current snapshot with \<open>currentOutfitIndex\<close> advanced by one and
  \<open>currentPoseIndex\<close> 0, and the cursor is its last index, so the snapshots beyond the
  cursor are dropped. What is kept whole is the layer stack \<open>outfitHistory\<close>.
\<close>

theorem garment_redo_records_snapshot:
  assumes cs: "currentState s = Some cs"
    and url: "truthy (generatedModelUrl s)" and idle: "\<not> isLoading s"
    and redo: "redoMatches (js_nth (outfitHistory cs) (currentOutfitIndex cs + 1)) g"
  shows "history (handleGarmentSelect gen fr s gf g) =
           take (nat (historyIndex s + 1)) (history s) @
             [cs\<lparr>currentOutfitIndex := currentOutfitIndex cs + 1, currentPoseIndex := 0\<rparr>]
       \<and> historyIndex (handleGarmentSelect gen fr s gf g) = historyIndex s + 1
       \<and> int (length (history (handleGarmentSelect gen fr s gf g))) = historyIndex s + 2
       \<and> outfitHistory_cur (handleGarmentSelect gen fr s gf g) = outfitHistory cs
       \<and> synthCalls (handleGarmentSelect gen fr s gf g) = synthCalls s"
proof -
  let ?n = "cs\<lparr>currentOutfitIndex := currentOutfitIndex cs + 1, currentPoseIndex := 0\<rparr>"
  have eq: "handleGarmentSelect gen fr s gf g = recordNewState s ?n"
    using cs url idle redo by (simp add: handleGarmentSelect_def cur_simps)
  have r: "0 \<le> historyIndex s" "historyIndex s < int (length (history s))"
    using currentState_range [OF cs] by auto
  have h: "history (recordNewState s ?n) = take (nat (historyIndex s + 1)) (history s) @ [?n]"
    using r by (simp add: recordNewState_def Let_def js_slice0_take)
  have len: "int (length (history (recordNewState s ?n))) = historyIndex s + 2"
    unfolding h using r by (auto simp: min_def)
  have i: "historyIndex (recordNewState s ?n) = historyIndex s + 1"
    using len by (simp add: recordNewState_def Let_def)
  have oh: "outfitHistory_cur (recordNewState s ?n) = outfitHistory cs"
    by (simp add: outfitHistory_cur_def currentState_recordNewState)
  show ?thesis unfolding eq using h len i oh by simp
qed

theorem garment_redo_example:
  "currentState c2 = Some (history c2 ! 4)
   \<and> truthy (generatedModelUrl c2) \<and> \<not> isLoading c2
   \<and> redoMatches (js_nth (outfitHistory (history c2 ! 4)) (currentOutfitIndex (history c2 ! 4) + 1)) shirtA
   \<and> historyIndex c2 = 4
   \<and> historyIndex (handleGarmentSelect exampleTryOn exampleFriendly c2 ''A'' shirtA) = 5
   \<and> length (history (handleGarmentSelect exampleTryOn exampleFriendly c2 ''A'' shirtA)) = 6
   \<and> outfitHistory_cur (handleGarmentSelect exampleTryOn exampleFriendly c2 ''A'' shirtA) =
       outfitHistory (history c2 ! 4)"
proof -
  let ?cs = "history c2 ! 4"
  have h1: "currentState c2 = Some ?cs" by code_simp
  have h2: "truthy (generatedModelUrl c2)" by code_simp
  have h3: "\<not> isLoading c2" by code_simp
  have h4: "redoMatches (js_nth (outfitHistory ?cs) (currentOutfitIndex ?cs + 1)) shirtA"
    by code_simp
  have i: "historyIndex c2 = 4" by code_simp
  note t = garment_redo_records_snapshot
    [where gen = exampleTryOn and fr = exampleFriendly and gf = "''A''", OF h1 h2 h3 h4]
  from t have
    "historyIndex (handleGarmentSelect exampleTryOn exampleFriendly c2 ''A'' shirtA) =
       historyIndex c2 + 1"
    "int (length (history (handleGarmentSelect exampleTryOn exampleFriendly c2 ''A'' shirtA))) =
       historyIndex c2 + 2"
    "outfitHistory_cur (handleGarmentSelect exampleTryOn exampleFriendly c2 ''A'' shirtA) =
       outfitHistory ?cs"
    by blast+
  then show ?thesis using h1 h2 h3 h4 i by simp
qed

section \<open>The busy flag and the history\<close>

text \<open>
  Claim C8. With \<open>isLoading\<close> set (a call to the service is outstanding) no entry point may
  change the log or its cursor. \<open>handleGarmentSelect\<close> and \<open>handlePoseSelect\<close> test the flag
  and return; \<open>handleUndo\<close>, \<open>handleRedo\<close> and \<open>handleRemoveLastGarment\<close> do not.
  \<open>busy3\<close> is \<open>a3\<close> with the busy flag set, as rendered while \<open>shirtB\<close> is being applied:
  there undo moves the cursor from 2 to 1, redo moves it back, and remove-last-garment
  records a fourth snapshot.
\<close>

theorem busy_history_counterexample:
  "isLoading busy3 \<and> historyIndex busy3 = 2 \<and> length (history busy3) = 3
   \<and> historyIndex (handleUndo busy3) = 1
   \<and> historyIndex (handleRedo (handleUndo busy3)) = 2
   \<and> length (history (handleRemoveLastGarment busy3)) = 4
   \<and> historyIndex (handleRemoveLastGarment busy3) = 3"
  by code_simp

text \<open>
  The handlers that can start a service call change nothing while the flag is set; the
  other three do not read it.
\<close>

lemma busy_guards_synthesis_handlers_only:
  "(isLoading s \<longrightarrow>
      handleGarmentSelect gen fr s gf g = s
    \<and> handlePoseSelect pv fr s i = s
    \<and> clickPreviousPose pv fr s = s
    \<and> clickNextPose pv fr s = s)
   \<and> handleUndo (s\<lparr>isLoading := busy\<rparr>) = (handleUndo s)\<lparr>isLoading := busy\<rparr>
   \<and> handleRedo (s\<lparr>isLoading := busy\<rparr>) = (handleRedo s)\<lparr>isLoading := busy\<rparr>
   \<and> handleRemoveLastGarment (s\<lparr>isLoading := busy\<rparr>) = (handleRemoveLastGarment s)\<lparr>isLoading := busy\<rparr>"
proof -
  have a: "isLoading s \<Longrightarrow> handleGarmentSelect gen fr s gf g = s"
    by (simp add: handleGarmentSelect_def split: option.splits)
  have b: "isLoading s \<Longrightarrow> handlePoseSelect pv fr s i = s"
    by (simp add: handlePoseSelect_def split: option.splits)
  have c: "isLoading s \<Longrightarrow> clickPreviousPose pv fr s = s"
    by (simp add: clickPreviousPose_def poseControlsShown_def)
  have d: "isLoading s \<Longrightarrow> clickNextPose pv fr s = s"
    by (simp add: clickNextPose_def poseControlsShown_def)
  have u: "handleUndo (s\<lparr>isLoading := busy\<rparr>) = (handleUndo s)\<lparr>isLoading := busy\<rparr>"
    by (simp add: handleUndo_def canUndo_def)
  have r: "handleRedo (s\<lparr>isLoading := busy\<rparr>) = (handleRedo s)\<lparr>isLoading := busy\<rparr>"
    by (simp add: handleRedo_def canRedo_def)
  have m: "handleRemoveLastGarment (s\<lparr>isLoading := busy\<rparr>) = (handleRemoveLastGarment s)\<lparr>isLoading := busy\<rparr>"
    by (simp add: handleRemoveLastGarment_def currentState_def currentOutfitIndex_cur_def
          recordNewState_def Let_def split: option.splits)
  show ?thesis using a b c d u r m by blast
qed

lemma busy_guards_example:
  "isLoading busy3
   \<and> handleGarmentSelect exampleTryOn exampleFriendly busy3 ''B'' shirtB = busy3
   \<and> handlePoseSelect examplePose exampleFriendly busy3 1 = busy3
   \<and> clickPreviousPose examplePose exampleFriendly busy3 = busy3
   \<and> clickNextPose examplePose exampleFriendly busy3 = busy3"
proof -
  have h: "isLoading busy3" by code_simp
  show ?thesis
    using h busy_guards_synthesis_handlers_only
      [where s = busy3 and gen = exampleTryOn and fr = exampleFriendly and gf = "''B''"
         and g = shirtB and pv = examplePose and i = 1]
    by simp
qed

text \<open>
  What is done to the log while the call is outstanding is lost when the call returns:
  the second half of \<open>handleGarmentSelect\<close> writes the log it captured before the call.
  After an undo, or a remove-last-garment, in the pending state the outcome is the same as
  if nothing had been done.
\<close>

lemma pending3_example:
  "isLoading pending3 \<and> history pending3 = history a3 \<and> historyIndex pending3 = 2
   \<and> handleGarmentSelect exampleTryOn exampleFriendly a3 ''B'' shirtB =
       garmentResume exampleFriendly a3 shirtB (Inr ''model.png+B'') pending3
   \<and> historyIndex (handleUndo pending3) = 1
   \<and> garmentResume exampleFriendly a3 shirtB (Inr ''model.png+B'') (handleUndo pending3) =
       handleGarmentSelect exampleTryOn exampleFriendly a3 ''B'' shirtB
   \<and> length (history (handleRemoveLastGarment pending3)) = 4
   \<and> garmentResume exampleFriendly a3 shirtB (Inr ''model.png+B'')
        (handleRemoveLastGarment pending3) =
       handleGarmentSelect exampleTryOn exampleFriendly a3 ''B'' shirtB"
  by code_simp

section \<open>Pose images and the log\<close>

text \<open>
  Claim C10. A pose select that has to synthesise (the image of the selected instruction is
  not cached in the current layer, the layer has an image to start from, the service
  returns one) appends one snapshot to the prefix of the log up to the cursor; in that
  snapshot the current layer is a copy with the new entry. After undo the current snapshot
  is the old one, its current layer and pose keys are the old ones, and selecting the same
  pose again calls the service again.
\<close>

theorem pose_cache_is_snapshot_local:
  assumes cs: "currentState s = Some cs" and idle: "\<not> isLoading s"
    and neq: "i \<noteq> currentPoseIndex cs"
    and layer: "js_nth (outfitHistory cs) (currentOutfitIndex cs) = Some layer"
    and miss: "\<not> truthy (js_get (poseImages layer) (js_nth POSE_INSTRUCTIONS i))"
    and base: "js_nth (object_values (poseImages layer)) 0 = Some b" "b \<noteq> []"
    and ok: "pv b (js_key (js_nth POSE_INSTRUCTIONS i)) = Inr newImageUrl"
  shows "synthCalls (handlePoseSelect pv fr s i) =
           synthCalls s @ [PoseVariation b (js_key (js_nth POSE_INSTRUCTIONS i))]
       \<and> history (handlePoseSelect pv fr s i) =
           take (nat (historyIndex s + 1)) (history s) @
             [cs\<lparr>outfitHistory :=
                    mapLayer (outfitHistory cs) 0 (currentOutfitIndex cs)
                      (js_key (js_nth POSE_INSTRUCTIONS i)) newImageUrl,
                  currentPoseIndex := i\<rparr>]
       \<and> js_nth (outfitHistory_cur (handlePoseSelect pv fr s i))
                (currentOutfitIndex_cur (handlePoseSelect pv fr s i)) =
           Some (layer\<lparr>poseImages :=
                   js_set (poseImages layer) (js_key (js_nth POSE_INSTRUCTIONS i)) newImageUrl\<rparr>)
       \<and> js_get (js_set (poseImages layer) (js_key (js_nth POSE_INSTRUCTIONS i)) newImageUrl)
            (js_nth POSE_INSTRUCTIONS i) = Some newImageUrl
       \<and> currentState (handleUndo (handlePoseSelect pv fr s i)) = Some cs
       \<and> js_nth (outfitHistory_cur (handleUndo (handlePoseSelect pv fr s i)))
                (currentOutfitIndex_cur (handleUndo (handlePoseSelect pv fr s i))) = Some layer
       \<and> availablePoseKeys (handleUndo (handlePoseSelect pv fr s i)) = object_keys (poseImages layer)
       \<and> synthCalls (handlePoseSelect pv' fr' (handleUndo (handlePoseSelect pv fr s i)) i) =
           synthCalls (handleUndo (handlePoseSelect pv fr s i)) @
             [PoseVariation b (js_key (js_nth POSE_INSTRUCTIONS i))]"
proof -
  let ?k = "js_key (js_nth POSE_INSTRUCTIONS i)"
  let ?n = "cs\<lparr>outfitHistory := mapLayer (outfitHistory cs) 0 (currentOutfitIndex cs) ?k newImageUrl,
               currentPoseIndex := i\<rparr>"
  let ?s1 = "handlePoseSelect pv fr s i"
  let ?s2 = "handleUndo ?s1"
  have r: "0 \<le> historyIndex s" "historyIndex s < int (length (history s))"
    and here: "history s ! nat (historyIndex s) = cs"
    using cs by (simp_all add: currentState_def js_nth_def split: if_splits)
  have eq: "?s1 = finallyBlock (recordNewState
                ((setLoading s ''Changing pose...'')\<lparr>synthCalls := synthCalls s @ [PoseVariation b ?k]\<rparr>) ?n)"
    by (rule pose_await_success [where pv = pv, OF cs idle neq layer miss base ok])
  have calls1: "synthCalls ?s1 = synthCalls s @ [PoseVariation b ?k]"
    unfolding eq by simp
  have hist1: "history ?s1 = take (nat (historyIndex s + 1)) (history s) @ [?n]"
    unfolding eq using r by (simp add: recordNewState_def Let_def js_slice0_take)
  have idx1: "historyIndex ?s1 = historyIndex s + 1"
    unfolding eq using r by (auto simp: recordNewState_def Let_def js_slice0_take min_def)
  have idle1: "\<not> isLoading ?s1" unfolding eq by simp
  have cur1: "currentState ?s1 = Some ?n"
    unfolding eq by (simp add: currentState_recordNewState)
  have layer1: "js_nth (outfitHistory_cur ?s1) (currentOutfitIndex_cur ?s1) =
                  Some (layer\<lparr>poseImages := js_set (poseImages layer) ?k newImageUrl\<rparr>)"
    using js_nth_mapLayer [OF layer] by (simp add: cur_simps [OF cur1])
  have got: "js_get (js_set (poseImages layer) ?k newImageUrl) (js_nth POSE_INSTRUCTIONS i) = Some newImageUrl"
    by (simp add: js_get_def map_of_js_set)
  have s2: "?s2 = ?s1\<lparr>historyIndex := historyIndex s\<rparr>"
    using idx1 r by (simp add: handleUndo_def canUndo_def)
  have cur2: "currentState ?s2 = Some cs"
    unfolding s2 using r here hist1
    by (simp add: currentState_def js_nth_def nth_append min_def)
  have idle2: "\<not> isLoading ?s2" unfolding s2 using idle1 by simp
  have layer2: "js_nth (outfitHistory_cur ?s2) (currentOutfitIndex_cur ?s2) = Some layer"
    using layer by (simp add: cur_simps [OF cur2])
  have ne: "outfitHistory cs \<noteq> []" using js_nth_SomeD [OF layer] by auto
  have keys2: "availablePoseKeys ?s2 = object_keys (poseImages layer)"
    using layer ne by (simp add: availablePoseKeys_def cur_simps [OF cur2])
  have calls2: "synthCalls (handlePoseSelect pv' fr' ?s2 i) = synthCalls ?s2 @ [PoseVariation b ?k]"
    by (rule pose_await_calls [OF cur2 idle2 neq layer miss base])
  show ?thesis
    using calls1 hist1 layer1 got cur2 layer2 keys2 calls2 by simp
qed

theorem pose_cache_example:
  "currentState b3 = Some (last (history b3)) \<and> \<not> isLoading b3
   \<and> availablePoseKeys b3 = [''Slightly turned, 3/4 view'']
   \<and> availablePoseKeys (handlePoseSelect examplePose exampleFriendly b3 2) =
       [''Slightly turned, 3/4 view'', ''Side profile view'']
   \<and> availablePoseKeys (handleUndo (handlePoseSelect examplePose exampleFriendly b3 2)) =
       [''Slightly turned, 3/4 view'']
   \<and> synthCalls (handlePoseSelect examplePose exampleFriendly
         (handleUndo (handlePoseSelect examplePose exampleFriendly b3 2)) 2) =
       synthCalls (handleUndo (handlePoseSelect examplePose exampleFriendly b3 2)) @
         [PoseVariation ''model.png~Slig+A'' ''Side profile view'']"
proof -
  let ?cs = "last (history b3)"
  let ?layer = "last (outfitHistory ?cs)"
  have h1: "currentState b3 = Some ?cs" by code_simp
  have h2: "\<not> isLoading b3" by code_simp
  have h3: "2 \<noteq> currentPoseIndex ?cs" by code_simp
  have h4: "js_nth (outfitHistory ?cs) (currentOutfitIndex ?cs) = Some ?layer" by code_simp
  have h5: "\<not> truthy (js_get (poseImages ?layer) (js_nth POSE_INSTRUCTIONS 2))" by code_simp
  have h6: "js_nth (object_values (poseImages ?layer)) 0 = Some ''model.png~Slig+A''"
    by code_simp
  have h7: "''model.png~Slig+A'' \<noteq> []" by simp
  have h8: "examplePose ''model.png~Slig+A'' (js_key (js_nth POSE_INSTRUCTIONS 2)) =
              Inr ''model.png~Slig+A~Side''"
    by code_simp
  have k: "js_key (js_nth POSE_INSTRUCTIONS 2) = ''Side profile view''" by code_simp
  have keys: "object_keys (poseImages ?layer) = [''Slightly turned, 3/4 view'']" by code_simp
  have before: "availablePoseKeys b3 = [''Slightly turned, 3/4 view'']" by code_simp
  have after: "availablePoseKeys (handlePoseSelect examplePose exampleFriendly b3 2) =
                 [''Slightly turned, 3/4 view'', ''Side profile view'']"
    by code_simp
  note t = pose_cache_is_snapshot_local
    [where pv = examplePose and fr = exampleFriendly and pv' = examplePose
       and fr' = exampleFriendly, OF h1 h2 h3 h4 h5 h6 h7 h8]
  from t have
    "availablePoseKeys (handleUndo (handlePoseSelect examplePose exampleFriendly b3 2)) =
       [''Slightly turned, 3/4 view'']"
    "synthCalls (handlePoseSelect examplePose exampleFriendly
         (handleUndo (handlePoseSelect examplePose exampleFriendly b3 2)) 2) =
       synthCalls (handleUndo (handlePoseSelect examplePose exampleFriendly b3 2)) @
         [PoseVariation ''model.png~Slig+A'' ''Side profile view'']"
    unfolding k keys by blast+
  then show ?thesis using h1 h2 before after by simp
qed

section \<open>Pose navigation\<close>

text \<open>
  Claim C6, as stated: with master list A, B, C, D and generated poses A, C (in that order),
  "next" at C selects B. The handler selects index 3, that is D, and not index 1.
\<close>

theorem next_pose_counterexample:
  "handleNextPose False [''A'', ''B'', ''C'', ''D''] 2 [''A'', ''C''] = Some (Idx 3)
   \<and> handleNextPose False [''A'', ''B'', ''C'', ''D''] 2 [''A'', ''C''] \<noteq> Some (Idx 1)"
  by code_simp

text \<open>
  Claim C6, amended. Master list A, B, C, D; the app is idle, the current pose index is 0
  (A) and the current layer has (non-empty) images for A and C, generated in that order.
  "Next" selects index 2 (C), and selecting it is a cursor move: one snapshot recorded, no
  call to the service. "Next" again selects index 3, the entry D after the current pose C
  in the master list, not B; D has no image in the layer, so selecting it calls the
  service for D on the layer's first image, and when that returns an image the current
  pose is D and the generated poses are A, C, D.
\<close>

theorem next_pose_walk:
  assumes cs: "currentState s = Some cs" and idle: "\<not> isLoading s"
    and pose: "currentPoseIndex cs = 0"
    and layer: "js_nth (outfitHistory cs) (currentOutfitIndex cs) = Some layer"
    and imgs: "poseImages layer = [(''A'', a), (''C'', c)]" "a \<noteq> []" "c \<noteq> []"
  shows "handleNextPose (isLoading s) [''A'', ''B'', ''C'', ''D''] (currentPoseIndex_cur s)
           (availablePoseKeys s) = Some (Idx 2)
       \<and> handlePoseSelectWith [''A'', ''B'', ''C'', ''D''] pv fr s 2 =
           recordNewState s (cs\<lparr>currentPoseIndex := 2\<rparr>)
       \<and> synthCalls (handlePoseSelectWith [''A'', ''B'', ''C'', ''D''] pv fr s 2) = synthCalls s
       \<and> handleNextPose (isLoading (handlePoseSelectWith [''A'', ''B'', ''C'', ''D''] pv fr s 2))
           [''A'', ''B'', ''C'', ''D'']
           (currentPoseIndex_cur (handlePoseSelectWith [''A'', ''B'', ''C'', ''D''] pv fr s 2))
           (availablePoseKeys (handlePoseSelectWith [''A'', ''B'', ''C'', ''D''] pv fr s 2)) =
           Some (Idx 3)
       \<and> js_nth [''A'', ''B'', ''C'', ''D''] 3 = Some ''D''
       \<and> synthCalls (handlePoseSelectWith [''A'', ''B'', ''C'', ''D''] pv' fr'
            (handlePoseSelectWith [''A'', ''B'', ''C'', ''D''] pv fr s 2) 3) =
           synthCalls s @ [PoseVariation a ''D'']
       \<and> (pv' a ''D'' = Inr d \<longrightarrow>
            currentPoseIndex_cur (handlePoseSelectWith [''A'', ''B'', ''C'', ''D''] pv' fr'
              (handlePoseSelectWith [''A'', ''B'', ''C'', ''D''] pv fr s 2) 3) = 3
          \<and> availablePoseKeys (handlePoseSelectWith [''A'', ''B'', ''C'', ''D''] pv' fr'
              (handlePoseSelectWith [''A'', ''B'', ''C'', ''D''] pv fr s 2) 3) = [''A'', ''C'', ''D''])"
proof -
  let ?M = "[''A'', ''B'', ''C'', ''D'']"
  let ?s1 = "handlePoseSelectWith ?M pv fr s 2"
  let ?cs1 = "cs\<lparr>currentPoseIndex := 2\<rparr>"
  let ?s2 = "handlePoseSelectWith ?M pv' fr' ?s1 3"
  have ne: "outfitHistory cs \<noteq> []" using js_nth_SomeD [OF layer] by auto
  have keys: "availablePoseKeys s = [''A'', ''C'']"
    using layer ne imgs(1) by (simp add: availablePoseKeys_def cur_simps [OF cs] object_keys_def)
  have n1: "handleNextPose (isLoading s) ?M (currentPoseIndex_cur s) (availablePoseKeys s) = Some (Idx 2)"
    using idle pose unfolding keys cur_simps [OF cs]
    by (simp add: handleNextPose_def js_nth_def findIndex_def Let_def)
  have cached: "truthy (js_get (poseImages layer) (js_nth ?M 2))"
    using imgs by (simp add: js_get_def js_nth_def)
  have neq1: "2 \<noteq> currentPoseIndex cs" using pose by simp
  have s1: "?s1 = recordNewState s ?cs1"
    by (rule pose_select_with_cached [OF cs idle neq1 layer cached])
  have calls1: "synthCalls ?s1 = synthCalls s" unfolding s1 by simp
  have cur1: "currentState ?s1 = Some ?cs1" unfolding s1 by (rule currentState_recordNewState)
  have idle1: "\<not> isLoading ?s1" unfolding s1 using idle by (simp add: recordNewState_def Let_def)
  have layer1: "js_nth (outfitHistory ?cs1) (currentOutfitIndex ?cs1) = Some layer"
    using layer by simp
  have ne1: "outfitHistory ?cs1 \<noteq> []" using ne by simp
  have keys1: "availablePoseKeys ?s1 = [''A'', ''C'']"
    using layer1 ne1 imgs(1)
    by (simp add: availablePoseKeys_def cur_simps [OF cur1] object_keys_def)
  have p1: "currentPoseIndex_cur ?s1 = 2" by (simp add: cur_simps [OF cur1])
  have n2: "handleNextPose (isLoading ?s1) ?M (currentPoseIndex_cur ?s1) (availablePoseKeys ?s1) = Some (Idx 3)"
    using idle1 unfolding keys1 p1
    by (simp add: handleNextPose_def js_nth_def findIndex_def Let_def js_rem_def)
  have d: "js_nth ?M 3 = Some ''D''" by (simp add: js_nth_def)
  have miss: "\<not> truthy (js_get (poseImages layer) (js_nth ?M 3))"
    using imgs by (simp add: js_get_def js_nth_def)
  have base: "js_nth (object_values (poseImages layer)) 0 = Some a"
    using imgs by (simp add: object_values_def js_nth_def)
  have neq2: "3 \<noteq> currentPoseIndex ?cs1" by simp
  have calls2: "synthCalls ?s2 = synthCalls s @ [PoseVariation a ''D'']"
    using pose_select_with_calls [OF cur1 idle1 neq2 layer1 miss base imgs(2), of pv' fr'] calls1
    by (simp add: js_nth_def)
  have fin: "currentPoseIndex_cur ?s2 = 3 \<and> availablePoseKeys ?s2 = [''A'', ''C'', ''D'']"
    if ok: "pv' a ''D'' = Inr d"
  proof -
    have ok': "pv' a (js_key (js_nth ?M 3)) = Inr d" using ok by (simp add: js_nth_def)
    note c = pose_select_with_success
      [where pv = pv' and fr = fr' and poses = ?M and i = 3, OF cur1 idle1 neq2 layer1 miss base imgs(2) ok']
    have l2: "js_nth (mapLayer (outfitHistory cs) 0 (currentOutfitIndex cs) ''D'' d)
                (currentOutfitIndex cs) =
              Some (layer\<lparr>poseImages := js_set (poseImages layer) ''D'' d\<rparr>)"
      by (rule js_nth_mapLayer [OF layer])
    have "mapLayer (outfitHistory cs) 0 (currentOutfitIndex cs) ''D'' d \<noteq> []"
      using ne by (cases "outfitHistory cs") auto
    then show ?thesis
      using c l2 imgs(1)
      by (simp add: cur_simps [OF c] availablePoseKeys_def object_keys_def js_nth_def)
  qed
  show ?thesis using n1 s1 calls1 n2 d calls2 fin by blast
qed

theorem next_pose_walk_example:
  "currentState generatedAC = Some (hd (history generatedAC)) \<and> \<not> isLoading generatedAC
   \<and> availablePoseKeys generatedAC = [''A'', ''C'']
   \<and> currentPoseIndex_cur generatedAC = 0
   \<and> synthCalls (handlePoseSelectWith [''A'', ''B'', ''C'', ''D''] examplePose exampleFriendly
        generatedAC 2) = []
   \<and> currentPoseIndex_cur (handlePoseSelectWith [''A'', ''B'', ''C'', ''D''] examplePose exampleFriendly
        generatedAC 2) = 2
   \<and> synthCalls (handlePoseSelectWith [''A'', ''B'', ''C'', ''D''] examplePose exampleFriendly
        (handlePoseSelectWith [''A'', ''B'', ''C'', ''D''] examplePose exampleFriendly generatedAC 2) 3)
       = [PoseVariation ''a.png'' ''D'']
   \<and> availablePoseKeys (handlePoseSelectWith [''A'', ''B'', ''C'', ''D''] examplePose exampleFriendly
        (handlePoseSelectWith [''A'', ''B'', ''C'', ''D''] examplePose exampleFriendly generatedAC 2) 3)
       = [''A'', ''C'', ''D'']"
proof -
  let ?cs = "hd (history generatedAC)"
  let ?layer = "hd (outfitHistory ?cs)"
  have h1: "currentState generatedAC = Some ?cs" by code_simp
  have h2: "\<not> isLoading generatedAC" by code_simp
  have h3: "currentPoseIndex ?cs = 0" by code_simp
  have h4: "js_nth (outfitHistory ?cs) (currentOutfitIndex ?cs) = Some ?layer" by code_simp
  have h5: "poseImages ?layer = [(''A'', ''a.png''), (''C'', ''c.png'')]" by code_simp
  have h6: "''a.png'' \<noteq> []" "''c.png'' \<noteq> []" by simp_all
  have ok: "examplePose ''a.png'' ''D'' = Inr ''a.png~D''" by code_simp
  have k: "availablePoseKeys generatedAC = [''A'', ''C'']" by code_simp
  have p: "currentPoseIndex_cur generatedAC = 0" by code_simp
  have c0: "synthCalls generatedAC = []" by code_simp
  have p1: "currentPoseIndex_cur (handlePoseSelectWith [''A'', ''B'', ''C'', ''D''] examplePose
              exampleFriendly generatedAC 2) = 2"
    by code_simp
  note t = next_pose_walk
    [where pv = examplePose and fr = exampleFriendly and pv' = examplePose
       and fr' = exampleFriendly and d = "''a.png~D''", OF h1 h2 h3 h4 h5 h6]
  from t ok have
    "synthCalls (handlePoseSelectWith [''A'', ''B'', ''C'', ''D''] examplePose exampleFriendly
        generatedAC 2) = synthCalls generatedAC"
    "synthCalls (handlePoseSelectWith [''A'', ''B'', ''C'', ''D''] examplePose exampleFriendly
        (handlePoseSelectWith [''A'', ''B'', ''C'', ''D''] examplePose exampleFriendly generatedAC 2) 3)
       = synthCalls generatedAC @ [PoseVariation ''a.png'' ''D'']"
    "availablePoseKeys (handlePoseSelectWith [''A'', ''B'', ''C'', ''D''] examplePose exampleFriendly
        (handlePoseSelectWith [''A'', ''B'', ''C'', ''D''] examplePose exampleFriendly generatedAC 2) 3)
       = [''A'', ''C'', ''D'']"
    by blast+
  then show ?thesis using h1 h2 k p p1 c0 by simp
qed

text \<open>
  Claim C7. As long as the current pose is among the generated ones, "previous" selects a
  generated pose and calls no service (lemmas \<open>previous_pose_stays_in_generated\<close> and
  \<open>previous_pose_cached\<close>). The reachable state \<open>b6\<close>
  (model finalized, pose 1, \<open>shirtA\<close> applied, pose 2, garment removed, \<open>shirtA\<close> selected
  again) is not of that kind: the pose buttons are shown, the current pose is pose 0 and
  the current layer has images for poses 1 and 2 only. There \<open>handlePreviousPose\<close> takes
  the branch its comment calls "shouldn't happen" and selects index 19, which is not
  cached, so the click on "previous" calls the image service.
\<close>

theorem previous_pose_synthesises:
  "reachable b6
   \<and> poseControlsShown b6
   \<and> currentPoseIndex_cur b6 = 0
   \<and> availablePoseKeys b6 = [''Slightly turned, 3/4 view'', ''Side profile view'']
   \<and> handlePreviousPose (isLoading b6) POSE_INSTRUCTIONS (currentPoseIndex_cur b6)
        (availablePoseKeys b6) = Some (Idx 19)
   \<and> synthCalls (clickPreviousPose examplePose exampleFriendly b6) =
       synthCalls b6 @
         [PoseVariation ''model.png~Slig+A'' ''Arms crossed, serious and direct look'']"
proof -
  have "poseControlsShown b6"
    and "currentPoseIndex_cur b6 = 0"
    and "availablePoseKeys b6 = [''Slightly turned, 3/4 view'', ''Side profile view'']"
    and "handlePreviousPose (isLoading b6) POSE_INSTRUCTIONS (currentPoseIndex_cur b6)
           (availablePoseKeys b6) = Some (Idx 19)"
    and "synthCalls (clickPreviousPose examplePose exampleFriendly b6) =
           synthCalls b6 @
             [PoseVariation ''model.png~Slig+A'' ''Arms crossed, serious and direct look'']"
    by code_simp+
  with reachable_b6 show ?thesis by simp
qed

end
